theory Spec2Isabelle
  imports Main "HOL-Library.Sublist"
begin

section \<open>The served search pipeline (backend/server.py)\<close>

text \<open>
  A shallow embedding of \<^verbatim>\<open>src/backend/server.py\<close>: query expansion with
  de-duplication (\<^verbatim>\<open>smart_search\<close>), content extraction (\<^verbatim>\<open>fetch_text\<close>),
  source qualification (\<^verbatim>\<open>strong_sources\<close>), prompt building
  (\<^verbatim>\<open>summarize_with_claude\<close>), the orchestrator (\<^verbatim>\<open>agentic_search\<close>) and the
  HTTP handler (\<^verbatim>\<open>search\<close>).

  Python values that the code handles are modelled as follows.
  \<^item> A \<^verbatim>\<open>str\<close> is a \<open>string\<close>; \<open>length\<close> counts its characters. HOL characters
    are 8 bits wide, so only code points below 256 are representable.
  \<^item> An \<^verbatim>\<open>int\<close> is an \<open>int\<close> (unbounded).
  \<^item> A value stored in a result or source dictionary is a \<open>pyval\<close>: \<^verbatim>\<open>None\<close> or a
    \<^verbatim>\<open>str\<close>. A dictionary is a map from keys to such values.
  \<^item> An exception is a value of \<open>py_exc\<close>; a function that may raise returns
    \<open>py_exc + 'a\<close>, with \<open>Inl\<close> for the raised exception.
  \<^item> The outside world (search provider, web pages, LLM provider) is a state of an
    arbitrary type \<open>'w\<close>; every external call reads and updates it, so the same URL can
    answer differently on a second fetch. The calls themselves are the fields of an
    environment record.
  \<^item> Next to the world the state carries a trace: the calls of the search adapter, of
    the extractor and of the LLM made so far, with what they returned.
\<close>

subsection \<open>Python values\<close>

datatype pyval = PNone | PStr string

type_synonym pydict = "string \<rightharpoonup> pyval"

text \<open>\<^verbatim>\<open>d.get(key)\<close>: the value, or \<^verbatim>\<open>None\<close> when the key is absent.\<close>

definition get :: "pydict \<Rightarrow> string \<Rightarrow> pyval" where
  "get d key = (case d key of None \<Rightarrow> PNone | Some v \<Rightarrow> v)"

text \<open>\<^verbatim>\<open>d.get(key, default)\<close>: the default only when the key is absent.\<close>

definition get_default :: "pydict \<Rightarrow> string \<Rightarrow> pyval \<Rightarrow> pyval" where
  "get_default d key dflt = (case d key of None \<Rightarrow> dflt | Some v \<Rightarrow> v)"

text \<open>Truthiness: \<^verbatim>\<open>None\<close> and the empty string are false.\<close>

fun truthy :: "pyval \<Rightarrow> bool" where
  "truthy PNone = False"
| "truthy (PStr s) = (s \<noteq> [])"

text \<open>\<^verbatim>\<open>v or default\<close> for a string default.\<close>

definition or_str :: "pyval \<Rightarrow> string \<Rightarrow> string" where
  "or_str v dflt = (case v of PNone \<Rightarrow> dflt | PStr s \<Rightarrow> (if s = [] then dflt else s))"

text \<open>What an f-string prints for a value.\<close>

fun fmt :: "pyval \<Rightarrow> string" where
  "fmt PNone = ''None''"
| "fmt (PStr s) = s"

text \<open>
  The slice \<^verbatim>\<open>xs[:n]\<close>: the first \<open>n\<close> elements for \<open>n \<ge> 0\<close>; for a negative
  \<open>n\<close> all but the last \<open>-n\<close> elements.
\<close>

definition py_take :: "int \<Rightarrow> 'a list \<Rightarrow> 'a list" where
  "py_take n xs = (if 0 \<le> n then take (nat n) xs else take (length xs - nat (- n)) xs)"

text \<open>\<^verbatim>\<open>d in s\<close> on strings: \<open>d\<close> occurs in \<open>s\<close> as a contiguous substring.\<close>

definition py_in :: "string \<Rightarrow> string \<Rightarrow> bool" where
  "py_in d s = sublist d s"

text \<open>
  \<^verbatim>\<open>str.isspace\<close> on one character, for code points below 256: tab, line feed,
  vertical tab, form feed, carriage return, the four separators 0x1C to 0x1F, space,
  next line (0x85) and no-break space (0xA0).
\<close>

definition is_space :: "char \<Rightarrow> bool" where
  "is_space c = ((of_char c :: nat) \<in> {9, 10, 11, 12, 13, 28, 29, 30, 31, 32, 133, 160})"

text \<open>\<^verbatim>\<open>s.strip()\<close>: leading and trailing whitespace removed.\<close>

definition strip :: "string \<Rightarrow> string" where
  "strip s = rev (dropWhile is_space (rev (dropWhile is_space s)))"

text \<open>
  \<^verbatim>\<open>s.splitlines()\<close>: the line boundaries below 256 are line feed, carriage return
  (one boundary together with a following line feed), vertical tab, form feed, the
  separators 0x1C to 0x1E and next line (0x85). A final boundary opens no empty line.
\<close>

definition is_linebreak :: "char \<Rightarrow> bool" where
  "is_linebreak c = ((of_char c :: nat) \<in> {10, 11, 12, 13, 28, 29, 30, 133})"

fun splitlines_from :: "string \<Rightarrow> string \<Rightarrow> string list" where
  "splitlines_from cur [] = (if cur = [] then [] else [cur])"
| "splitlines_from cur [c] = (if is_linebreak c then [cur] else [cur @ [c]])"
| "splitlines_from cur (c # d # cs) =
     (if c = CHR 0x0D \<and> d = CHR 0x0A then cur # splitlines_from [] cs
      else if is_linebreak c then cur # splitlines_from [] (d # cs)
      else splitlines_from (cur @ [c]) (d # cs))"

definition splitlines :: "string \<Rightarrow> string list" where
  "splitlines s = splitlines_from [] s"

text \<open>\<^verbatim>\<open>sep.join(parts)\<close>.\<close>

fun join :: "string \<Rightarrow> string list \<Rightarrow> string" where
  "join sep [] = []"
| "join sep [p] = p"
| "join sep (p # q # ps) = p @ sep @ join sep (q # ps)"

text \<open>\<^verbatim>\<open>str(n)\<close> for a natural number: its decimal digits.\<close>

definition digit_char :: "nat \<Rightarrow> char" where
  "digit_char d = ''0123456789'' ! d"

fun str_nat :: "nat \<Rightarrow> string" where
  "str_nat n =
     (if n < 10 then [digit_char n]
      else str_nat (n div 10) @ [digit_char (n mod 10)])"

declare str_nat.simps [simp del]

text \<open>
  \<^verbatim>\<open>s.split("\n")\<close>: the pieces between line feeds; a string without one is its
  only piece, and the empty string has the one empty piece.
\<close>

fun split_nl :: "string \<Rightarrow> string list" where
  "split_nl [] = [[]]"
| "split_nl (c # cs) =
     (if c = CHR 0x0A then [] # split_nl cs
      else (case split_nl cs of [] \<Rightarrow> [[c]] | l # ls \<Rightarrow> (c # l) # ls))"

text \<open>
  \<^verbatim>\<open>textwrap.dedent\<close>, as the standard library defines it up to Python 3.13. A line
  made of blanks and tabs only becomes empty. The margin is the longest string of blanks
  and tabs that opens every other non-empty line, and it is removed from the start of
  each line that has it. (Later versions differ on lines made of other whitespace
  only.)
\<close>

definition is_blank :: "char \<Rightarrow> bool" where
  "is_blank c = (c = CHR '' '' \<or> c = CHR 0x09)"

fun common_prefix :: "string \<Rightarrow> string \<Rightarrow> string" where
  "common_prefix (x # xs) (y # ys) = (if x = y then x # common_prefix xs ys else [])"
| "common_prefix xs ys = []"

definition margin_of :: "string list \<Rightarrow> string" where
  "margin_of lines =
     (case map (takeWhile is_blank) (filter (\<lambda>l. dropWhile is_blank l \<noteq> []) lines) of
        [] \<Rightarrow> []
      | indent # indents \<Rightarrow> foldl common_prefix indent indents)"

definition blank_to_empty :: "string \<Rightarrow> string" where
  "blank_to_empty l = (if list_all is_blank l then [] else l)"

definition cut_margin :: "string \<Rightarrow> string \<Rightarrow> string" where
  "cut_margin margin l = (if prefix margin l then drop (length margin) l else l)"

definition dedent :: "string \<Rightarrow> string" where
  "dedent t =
     (let lines = map blank_to_empty (split_nl t)
      in join ''\<newline>'' (map (cut_margin (margin_of lines)) lines))"

subsection \<open>Exceptions\<close>

text \<open>
  Every exception of the model is an instance of Python's \<^verbatim>\<open>Exception\<close>.
  \<^verbatim>\<open>HTTPException\<close> is FastAPI's (a subclass of Starlette's, itself a subclass of
  \<^verbatim>\<open>Exception\<close>) with its status code and detail; \<^verbatim>\<open>APIStatusError\<close> is the LLM
  client's; \<^verbatim>\<open>KeyError\<close> carries the missing key; \<open>OtherError\<close> is any other
  exception. The last three carry what \<^verbatim>\<open>str(e)\<close> prints.
\<close>

datatype py_exc =
    HTTPException int string
  | APIStatusError string
  | KeyError string
  | OtherError string

subsection \<open>The outside world\<close>

text \<open>
  A response of \<^verbatim>\<open>SESSION.get\<close>: what \<^verbatim>\<open>raise_for_status()\<close> raises, if anything,
  and the body \<^verbatim>\<open>resp.text\<close>.
\<close>

record response =
  raise_for_status :: "py_exc option"
  resp_text :: string

text \<open>A content part of an LLM message: its \<^verbatim>\<open>type\<close> and its \<^verbatim>\<open>text\<close>.\<close>

record part =
  part_type :: string
  part_text :: string

text \<open>
  The external collaborators, none of which is code of the repository:
  \<^item> \<open>cse_list w q num\<close>: \<^verbatim>\<open>build(...).cse().list(q=q, cx=..., num=num).execute()\<close>
    and the \<^verbatim>\<open>items\<close> entry of its answer (\<open>None\<close> when it is missing or null);
  \<^item> \<open>trafilatura_fetch_url\<close>: \<^verbatim>\<open>trafilatura.fetch_url\<close>, which may return \<^verbatim>\<open>None\<close>;
  \<^item> \<open>trafilatura_extract\<close>: \<^verbatim>\<open>trafilatura.extract\<close> with the options of the call;
  \<^item> \<open>session_get\<close>: \<^verbatim>\<open>SESSION.get(url, timeout=15)\<close>;
  \<^item> \<open>soup_text\<close>: parsing with \<^verbatim>\<open>BeautifulSoup\<close>, removing the script, style,
    noscript and iframe elements, then \<^verbatim>\<open>get_text("\n")\<close>;
  \<^item> \<open>messages_create w system user\<close>: \<^verbatim>\<open>claude.messages.create\<close> with the fixed
    model, token limit and temperature, returning the content parts;
  \<^item> \<open>http_exception_str code detail\<close>: \<^verbatim>\<open>str(e)\<close> of an \<^verbatim>\<open>HTTPException\<close>.
\<close>

record 'w env =
  cse_list :: "'w \<Rightarrow> string \<Rightarrow> int \<Rightarrow> (py_exc + pydict list option) \<times> 'w"
  trafilatura_fetch_url :: "'w \<Rightarrow> pyval \<Rightarrow> (py_exc + string option) \<times> 'w"
  trafilatura_extract :: "string \<Rightarrow> py_exc + string option"
  session_get :: "'w \<Rightarrow> pyval \<Rightarrow> (py_exc + response) \<times> 'w"
  soup_text :: "string \<Rightarrow> py_exc + string"
  messages_create :: "'w \<Rightarrow> string \<Rightarrow> string \<Rightarrow> (py_exc + part list) \<times> 'w"
  http_exception_str :: "int \<Rightarrow> string \<Rightarrow> string"

text \<open>\<^verbatim>\<open>str(e)\<close>, as the f-strings and the handler print an exception.\<close>

fun str_exc :: "'w env \<Rightarrow> py_exc \<Rightarrow> string" where
  "str_exc E (HTTPException code detail) = http_exception_str E code detail"
| "str_exc E (APIStatusError m) = m"
| "str_exc E (KeyError key) = [CHR 0x27] @ key @ [CHR 0x27]"
| "str_exc E (OtherError m) = m"

text \<open>The trace: each call with its arguments and what it gave back.\<close>

datatype event =
    SearchCall string "py_exc + pydict list"
  | ExtractCall pyval "py_exc + string"
  | SynthCall "pydict list" string
  | LLMCall string string

record 'w state =
  world :: 'w
  trace :: "event list"

fun is_SearchCall :: "event \<Rightarrow> bool" where
  "is_SearchCall (SearchCall q r) = True"
| "is_SearchCall _ = False"

subsection \<open>Search helpers\<close>

definition AUTHORITATIVE_HINTS :: "string list" where
  "AUTHORITATIVE_HINTS =
     [''site:wikipedia.org'', ''site:britannica.com'', ''site:new7wonders.com'',
      ''site:nationalgeographic.com'', ''site:unesco.org'']"

definition WHITELIST_DOMAINS :: "string list" where
  "WHITELIST_DOMAINS =
     [''wikipedia.org'', ''britannica.com'', ''new7wonders.com'',
      ''nationalgeographic.com'', ''unesco.org'']"

text \<open>
  \<^verbatim>\<open>google_search_once\<close>: one provider call for at most 10 results;
  \<^verbatim>\<open>res.get("items", []) or []\<close> turns a missing or null entry into the empty list.
  A provider failure propagates.
\<close>

definition google_search_once ::
  "'w env \<Rightarrow> string \<Rightarrow> int \<Rightarrow> 'w state \<Rightarrow> (py_exc + pydict list) \<times> 'w state" where
  "google_search_once E query num_results \<sigma> =
     (case cse_list E (world \<sigma>) query (min num_results 10) of
        (r, w') \<Rightarrow>
          (let out = (case r of
                        Inl e \<Rightarrow> Inl e
                      | Inr items \<Rightarrow> Inr (case items of None \<Rightarrow> [] | Some xs \<Rightarrow> xs))
           in (out, \<lparr>world = w', trace = trace \<sigma> @ [SearchCall query out]\<rparr>)))"

text \<open>The query variants of \<^verbatim>\<open>smart_search\<close>, in the order they are issued.\<close>

definition queries_of :: "string \<Rightarrow> string list" where
  "queries_of query =
     [query, query @ '' official list'', query @ '' locations'']
     @ map (\<lambda>hint. query @ '' '' @ hint) AUTHORITATIVE_HINTS"

text \<open>
  The inner loop of \<^verbatim>\<open>smart_search\<close> over one variant's results: an item whose link
  is missing, empty or already seen is skipped; any other is recorded and appended, and
  the loop breaks once the budget is reached.
\<close>

fun merge_results ::
  "int \<Rightarrow> pydict list \<Rightarrow> pyval set \<times> pydict list \<Rightarrow> pyval set \<times> pydict list" where
  "merge_results budget [] (seen, items) = (seen, items)"
| "merge_results budget (it # rest) (seen, items) =
     (let link = get it ''link'' in
      if \<not> truthy link \<or> link \<in> seen then merge_results budget rest (seen, items)
      else
        (let seen' = insert link seen; items' = items @ [it] in
         if int (length items') \<ge> budget then (seen', items')
         else merge_results budget rest (seen', items')))"

text \<open>
  The outer loop over the variants: search, merge, and stop issuing variants once the
  budget is reached.
\<close>

fun search_variants ::
  "'w env \<Rightarrow> int \<Rightarrow> string list \<Rightarrow> pyval set \<times> pydict list \<Rightarrow> 'w state \<Rightarrow>
   (py_exc + pyval set \<times> pydict list) \<times> 'w state" where
  "search_variants E budget [] acc \<sigma> = (Inr acc, \<sigma>)"
| "search_variants E budget (q # qs) acc \<sigma> =
     (case google_search_once E q 10 \<sigma> of
        (Inl e, \<sigma>') \<Rightarrow> (Inl e, \<sigma>')
      | (Inr results, \<sigma>') \<Rightarrow>
          (let acc' = merge_results budget results acc in
           if int (length (snd acc')) \<ge> budget then (Inr acc', \<sigma>')
           else search_variants E budget qs acc' \<sigma>'))"

text \<open>The merged candidate list \<^verbatim>\<open>items\<close>, as it stands before the quality filter.\<close>

definition smart_search_items ::
  "'w env \<Rightarrow> string \<Rightarrow> int \<Rightarrow> 'w state \<Rightarrow> (py_exc + pydict list) \<times> 'w state" where
  "smart_search_items E query k \<sigma> =
     (case search_variants E (max 12 (k * 2)) (queries_of query) ({}, []) \<sigma> of
        (Inl e, \<sigma>') \<Rightarrow> (Inl e, \<sigma>')
      | (Inr acc, \<sigma>') \<Rightarrow> (Inr (snd acc), \<sigma>'))"

text \<open>
  \<^verbatim>\<open>smart_search\<close>: the items with a non-empty title and link, cut to
  \<^verbatim>\<open>max(10, k)\<close>.
\<close>

definition smart_search ::
  "'w env \<Rightarrow> string \<Rightarrow> int \<Rightarrow> 'w state \<Rightarrow> (py_exc + pydict list) \<times> 'w state" where
  "smart_search E query k \<sigma> =
     (case smart_search_items E query k \<sigma> of
        (Inl e, \<sigma>') \<Rightarrow> (Inl e, \<sigma>')
      | (Inr items, \<sigma>') \<Rightarrow>
          (let good = filter (\<lambda>it. truthy (get it ''title'') \<and> truthy (get it ''link'')) items
           in (Inr (py_take (max 10 k) good), \<sigma>')))"

subsection \<open>Extraction\<close>

text \<open>The default of \<^verbatim>\<open>max_chars\<close> in \<^verbatim>\<open>fetch_text\<close>.\<close>

definition fetch_text_max_chars :: int where
  "fetch_text_max_chars = 30000"

text \<open>
  The second half of the \<^verbatim>\<open>try\<close> block of \<^verbatim>\<open>fetch_text\<close>: a plain GET, the
  status check, the markup stripped, one stripped line per non-blank line.
\<close>

definition fetch_text_fallback ::
  "'w env \<Rightarrow> pyval \<Rightarrow> int \<Rightarrow> 'w \<Rightarrow> (py_exc + string) \<times> 'w" where
  "fetch_text_fallback E url max_chars w =
     (case session_get E w url of
        (Inl e, w') \<Rightarrow> (Inl e, w')
      | (Inr resp, w') \<Rightarrow>
          (case raise_for_status resp of
             Some e \<Rightarrow> (Inl e, w')
           | None \<Rightarrow>
               (case soup_text E (resp_text resp) of
                  Inl e \<Rightarrow> (Inl e, w')
                | Inr raw \<Rightarrow>
                    (let text = join ''\<newline>''
                           (map strip (filter (\<lambda>line. strip line \<noteq> []) (splitlines raw)))
                     in (Inr (if text \<noteq> [] then py_take max_chars text else []), w')))))"

text \<open>
  The whole \<^verbatim>\<open>try\<close> block: the primary method first; its text is returned when it is
  not blank, and every other outcome that is not an exception leads to the fallback.
\<close>

definition fetch_text_try ::
  "'w env \<Rightarrow> pyval \<Rightarrow> int \<Rightarrow> 'w \<Rightarrow> (py_exc + string) \<times> 'w" where
  "fetch_text_try E url max_chars w =
     (case trafilatura_fetch_url E w url of
        (Inl e, w') \<Rightarrow> (Inl e, w')
      | (Inr downloaded, w') \<Rightarrow>
          (case downloaded of
             None \<Rightarrow> fetch_text_fallback E url max_chars w'
           | Some d \<Rightarrow>
               if d = [] then fetch_text_fallback E url max_chars w'
               else
                 (case trafilatura_extract E d of
                    Inl e \<Rightarrow> (Inl e, w')
                  | Inr None \<Rightarrow> fetch_text_fallback E url max_chars w'
                  | Inr (Some text) \<Rightarrow>
                      if text \<noteq> [] \<and> strip text \<noteq> []
                      then (Inr (py_take max_chars (strip text)), w')
                      else fetch_text_fallback E url max_chars w')))"

text \<open>The placeholder of the \<^verbatim>\<open>except\<close> branch.\<close>

definition fetch_error :: "'w env \<Rightarrow> pyval \<Rightarrow> py_exc \<Rightarrow> string" where
  "fetch_error E url e = ''[Fetch error for '' @ fmt url @ '': '' @ str_exc E e @ '']''"

text \<open>
  \<^verbatim>\<open>fetch_text\<close>: the \<^verbatim>\<open>try\<close> block under \<^verbatim>\<open>except Exception\<close>. The result type
  still has room for an exception, so that "never raises" is a statement about the
  function and not about its type.
\<close>

definition fetch_text ::
  "'w env \<Rightarrow> pyval \<Rightarrow> int \<Rightarrow> 'w state \<Rightarrow> (py_exc + string) \<times> 'w state" where
  "fetch_text E url max_chars \<sigma> =
     (case fetch_text_try E url max_chars (world \<sigma>) of
        (r, w') \<Rightarrow>
          (let out = (case r of Inl e \<Rightarrow> Inr (fetch_error E url e) | Inr text \<Rightarrow> Inr text)
           in (out, \<lparr>world = w', trace = trace \<sigma> @ [ExtractCall url out]\<rparr>)))"

subsection \<open>Qualification\<close>

text \<open>\<^verbatim>\<open>any(d in (link or "") for d in WHITELIST_DOMAINS)\<close>.\<close>

definition is_whitelisted :: "pyval \<Rightarrow> bool" where
  "is_whitelisted link = list_ex (\<lambda>d. py_in d (or_str link [])) WHITELIST_DOMAINS"

text \<open>\<^verbatim>\<open>content and len(content) >= 800\<close>, as a truth value.\<close>

definition long_enough :: "string \<Rightarrow> bool" where
  "long_enough content = (content \<noteq> [] \<and> 800 \<le> length content)"

text \<open>The dictionary \<^verbatim>\<open>{"title": ..., "link": ..., "content": ...}\<close>.\<close>

definition source_dict :: "pyval \<Rightarrow> pyval \<Rightarrow> pyval \<Rightarrow> pydict" where
  "source_dict title link content =
     [''title'' \<mapsto> title, ''link'' \<mapsto> link, ''content'' \<mapsto> content]"

text \<open>
  The loop of \<^verbatim>\<open>strong_sources\<close>, with the list \<^verbatim>\<open>sources\<close> built so far. A
  candidate without a link is skipped before the break test; any other is fetched, kept
  when it is whitelisted or long enough, and then the loop breaks once \<open>k\<close> sources
  are there.
\<close>

fun strong_sources_loop ::
  "'w env \<Rightarrow> int \<Rightarrow> pydict list \<Rightarrow> pydict list \<Rightarrow> 'w state \<Rightarrow>
   (py_exc + pydict list) \<times> 'w state" where
  "strong_sources_loop E k [] sources \<sigma> = (Inr sources, \<sigma>)"
| "strong_sources_loop E k (r # rest) sources \<sigma> =
     (let link = get r ''link'';
          title = PStr (or_str (get r ''title'') ''Untitled'')
      in
      if \<not> truthy link then strong_sources_loop E k rest sources \<sigma>
      else
        (case fetch_text E link fetch_text_max_chars \<sigma> of
           (Inl e, \<sigma>') \<Rightarrow> (Inl e, \<sigma>')
         | (Inr content, \<sigma>') \<Rightarrow>
             (let sources' =
                    (if is_whitelisted link \<or> long_enough content
                     then sources @ [source_dict title link (PStr content)]
                     else sources)
              in
              if int (length sources') \<ge> k then (Inr sources', \<sigma>')
              else strong_sources_loop E k rest sources' \<sigma>')))"

definition strong_sources ::
  "'w env \<Rightarrow> pydict list \<Rightarrow> int \<Rightarrow> 'w state \<Rightarrow> (py_exc + pydict list) \<times> 'w state" where
  "strong_sources E results k \<sigma> = strong_sources_loop E k results [] \<sigma>"

subsection \<open>The LLM call\<close>

text \<open>The cap on the excerpt of one source in the prompt.\<close>

definition excerpt_cap :: int where
  "excerpt_cap = 6000"

text \<open>
  The f-string of one context block, before \<^verbatim>\<open>textwrap.dedent\<close> and
  \<^verbatim>\<open>strip\<close>: eight spaces of source indentation open each line.
\<close>

definition block_text :: "nat \<Rightarrow> string \<Rightarrow> string \<Rightarrow> string \<Rightarrow> string" where
  "block_text i title url excerpt =
     ''\<newline>        [Source '' @ str_nat i @ '']\<newline>''
     @ ''        Title: '' @ title @ ''\<newline>''
     @ ''        URL: '' @ url @ ''\<newline>''
     @ ''        Excerpt:\<newline>''
     @ ''        '' @ excerpt @ ''\<newline>''
     @ ''        ''"

definition context_block :: "nat \<Rightarrow> pydict \<Rightarrow> string" where
  "context_block i s =
     strip (dedent
       (block_text i
          (or_str (get s ''title'') ''Untitled'')
          (fmt (get s ''link''))
          (py_take excerpt_cap (or_str (get s ''content'') []))))"

text \<open>\<^verbatim>\<open>enumerate(sources, start=1)\<close>, one block each.\<close>

definition context_blocks :: "pydict list \<Rightarrow> string list" where
  "context_blocks sources =
     map (\<lambda>(i, s). context_block i s) (zip [1 ..< Suc (length sources)] sources)"

text \<open>
  The system prompt. The source file spells the apostrophe of its last sentence as the
  three characters U+00E2, U+20AC, U+2122; they stand here as their eight UTF-8 bytes.
\<close>

definition system_prompt :: string where
  "system_prompt =
     ''You are a precise research assistant. Prefer answers grounded in the provided sources, ''
     @ ''with citations like [1], [2]. If the question concerns widely accepted general facts ''
     @ ''(e.g., capitals, well-known lists, definitions) and the provided sources are thin, you may ''
     @ ''answer succinctly using general knowledge, but still try to ground with at least one reputable ''
     @ ''source from those provided. If essential details truly aren''
     @ [CHR 0xC3, CHR 0xA2, CHR 0xE2, CHR 0x82, CHR 0xAC, CHR 0xE2, CHR 0x84, CHR 0xA2]
     @ ''t in the sources and not reliable ''
     @ ''as general knowledge, say what is missing and suggest the single best next source to check.''"

definition user_prompt :: "pydict list \<Rightarrow> string \<Rightarrow> string" where
  "user_prompt sources user_query =
     ''user_query: '' @ user_query @ ''\<newline>\<newline>Sources:\<newline>''
     @ join ''\<newline>\<newline>'' (context_blocks sources)"

text \<open>
  \<^verbatim>\<open>summarize_with_claude\<close>: the prompt, one LLM call whose failure propagates, and
  the text parts of the answer joined and stripped.
\<close>

definition summarize_with_claude ::
  "'w env \<Rightarrow> pydict list \<Rightarrow> string \<Rightarrow> 'w state \<Rightarrow> (py_exc + string) \<times> 'w state" where
  "summarize_with_claude E sources user_query \<sigma> =
     (let prompt = user_prompt sources user_query;
          tr = trace \<sigma> @ [SynthCall sources user_query, LLMCall system_prompt prompt]
      in
      case messages_create E (world \<sigma>) system_prompt prompt of
        (Inl e, w') \<Rightarrow> (Inl e, \<lparr>world = w', trace = tr\<rparr>)
      | (Inr content, w') \<Rightarrow>
          (Inr (strip (concat (map part_text (filter (\<lambda>p. part_type p = ''text'') content)))),
           \<lparr>world = w', trace = tr\<rparr>))"

subsection \<open>The orchestrator and the handler\<close>

text \<open>
  The fallback of \<^verbatim>\<open>agentic_search\<close>: the comprehension over \<^verbatim>\<open>results[:k]\<close>,
  fetching each link in turn.
\<close>

fun fallback_sources ::
  "'w env \<Rightarrow> pydict list \<Rightarrow> 'w state \<Rightarrow> (py_exc + pydict list) \<times> 'w state" where
  "fallback_sources E [] \<sigma> = (Inr [], \<sigma>)"
| "fallback_sources E (r # rest) \<sigma> =
     (case fetch_text E (get r ''link'') fetch_text_max_chars \<sigma> of
        (Inl e, \<sigma>') \<Rightarrow> (Inl e, \<sigma>')
      | (Inr content, \<sigma>') \<Rightarrow>
          (case fallback_sources E rest \<sigma>' of
             (Inl e, \<sigma>'') \<Rightarrow> (Inl e, \<sigma>'')
           | (Inr others, \<sigma>'') \<Rightarrow>
               (Inr (source_dict (get_default r ''title'' (PStr ''Untitled''))
                       (get r ''link'') (PStr content) # others), \<sigma>'')))"

text \<open>
  Step 2 of \<^verbatim>\<open>agentic_search\<close>: the strong sources, or the fallback when there is
  none.
\<close>

definition select_sources ::
  "'w env \<Rightarrow> pydict list \<Rightarrow> int \<Rightarrow> 'w state \<Rightarrow> (py_exc + pydict list) \<times> 'w state" where
  "select_sources E results k \<sigma> =
     (case strong_sources E results k \<sigma> of
        (Inl e, \<sigma>') \<Rightarrow> (Inl e, \<sigma>')
      | (Inr sources, \<sigma>') \<Rightarrow>
          if sources = [] then fallback_sources E (py_take k results) \<sigma>'
          else (Inr sources, \<sigma>'))"

text \<open>
  The slim list \<^verbatim>\<open>[{"title": s["title"], "link": s["link"]} for s in sources]\<close>;
  a subscript on a missing key raises \<^verbatim>\<open>KeyError\<close>.
\<close>

definition slim_source :: "pydict \<Rightarrow> py_exc + pydict" where
  "slim_source s =
     (case s ''title'' of
        None \<Rightarrow> Inl (KeyError ''title'')
      | Some t \<Rightarrow>
          (case s ''link'' of
             None \<Rightarrow> Inl (KeyError ''link'')
           | Some l \<Rightarrow> Inr [''title'' \<mapsto> t, ''link'' \<mapsto> l]))"

fun slim_sources :: "pydict list \<Rightarrow> py_exc + pydict list" where
  "slim_sources [] = Inr []"
| "slim_sources (s # ss) =
     (case slim_source s of
        Inl e \<Rightarrow> Inl e
      | Inr d \<Rightarrow> (case slim_sources ss of Inl e \<Rightarrow> Inl e | Inr ds \<Rightarrow> Inr (d # ds)))"

definition no_results_detail :: string where
  "no_results_detail = ''No search results. Check Google CSE settings.''"

definition agentic_search ::
  "'w env \<Rightarrow> string \<Rightarrow> int \<Rightarrow> 'w state \<Rightarrow> (py_exc + string \<times> pydict list) \<times> 'w state" where
  "agentic_search E query k \<sigma> =
     (case smart_search E query (max 10 (k * 2)) \<sigma> of
        (Inl e, \<sigma>1) \<Rightarrow> (Inl e, \<sigma>1)
      | (Inr results, \<sigma>1) \<Rightarrow>
          if results = [] then (Inl (HTTPException 400 no_results_detail), \<sigma>1)
          else
            (case select_sources E results k \<sigma>1 of
               (Inl e, \<sigma>2) \<Rightarrow> (Inl e, \<sigma>2)
             | (Inr sources, \<sigma>2) \<Rightarrow>
                 (case summarize_with_claude E sources query \<sigma>2 of
                    (Inl e, \<sigma>3) \<Rightarrow> (Inl e, \<sigma>3)
                  | (Inr answer, \<sigma>3) \<Rightarrow>
                      (case slim_sources sources of
                         Inl e \<Rightarrow> (Inl e, \<sigma>3)
                       | Inr slim \<Rightarrow> (Inr (answer, slim), \<sigma>3)))))"

record SearchRequest =
  req_query :: string
  req_k :: int

record SearchResponse =
  resp_query :: string
  resp_answer :: string
  resp_sources :: "pydict list"

text \<open>
  The validation of \<^verbatim>\<open>sources: List[Dict[str, str]]\<close> when the response is built:
  every value must be a string.
\<close>

definition all_str :: "pydict \<Rightarrow> bool" where
  "all_str d = (d ''title'' \<noteq> Some PNone \<and> d ''link'' \<noteq> Some PNone)"

text \<open>
  The handler of \<^verbatim>\<open>POST /search\<close>. Its \<^verbatim>\<open>try\<close> block holds the call of
  \<^verbatim>\<open>agentic_search\<close> and the construction of the response; the first handler takes
  an \<^verbatim>\<open>APIStatusError\<close>, the second every other \<^verbatim>\<open>Exception\<close>, which includes the
  \<^verbatim>\<open>HTTPException\<close> raised inside the block.
\<close>

definition search ::
  "'w env \<Rightarrow> SearchRequest \<Rightarrow> 'w state \<Rightarrow> (py_exc + SearchResponse) \<times> 'w state" where
  "search E req \<sigma> =
     (case agentic_search E (req_query req) (req_k req) \<sigma> of
        (r, \<sigma>') \<Rightarrow>
          (let body =
                 (case r of
                    Inl e \<Rightarrow> Inl e
                  | Inr (answer, slim) \<Rightarrow>
                      if list_all all_str slim
                      then Inr \<lparr>resp_query = req_query req, resp_answer = answer,
                                resp_sources = slim\<rparr>
                      else Inl (OtherError ''validation error for SearchResponse''))
           in
           (case body of
              Inr resp \<Rightarrow> (Inr resp, \<sigma>')
            | Inl (APIStatusError m) \<Rightarrow>
                (Inl (HTTPException 502 (''Claude error: '' @ m)), \<sigma>')
            | Inl e \<Rightarrow> (Inl (HTTPException 500 (str_exc E e)), \<sigma>'))))"

subsection \<open>The variant merge, as a specification\<close>

text \<open>
  What the merged candidate list is meant to be: of a stream of results, those with a
  usable link, each link at its first occurrence only, in the order of the stream.
\<close>

fun dedup_links :: "pyval set \<Rightarrow> pydict list \<Rightarrow> pydict list" where
  "dedup_links seen [] = []"
| "dedup_links seen (it # rest) =
     (if truthy (get it ''link'') \<and> get it ''link'' \<notin> seen
      then it # dedup_links (insert (get it ''link'') seen) rest
      else dedup_links seen rest)"

text \<open>The results that the search calls of a trace returned, in call order.\<close>

fun responses_of :: "event list \<Rightarrow> pydict list" where
  "responses_of [] = []"
| "responses_of (SearchCall q (Inr results) # evs) = results @ responses_of evs"
| "responses_of (ev # evs) = responses_of evs"

text \<open>The queries of the search calls of a trace.\<close>

fun searched :: "event list \<Rightarrow> string list" where
  "searched [] = []"
| "searched (SearchCall q r # evs) = q # searched evs"
| "searched (ev # evs) = searched evs"

text \<open>The extractor calls of a trace: the URL and what came back.\<close>

fun extracted :: "event list \<Rightarrow> (pyval \<times> (py_exc + string)) list" where
  "extracted [] = []"
| "extracted (ExtractCall url r # evs) = (url, r) # extracted evs"
| "extracted (ev # evs) = extracted evs"

text \<open>A string without its whitespace: what is left for comparing texts up to
  whitespace.\<close>

definition squash :: "string \<Rightarrow> string" where
  "squash s = filter (\<lambda>c. \<not> is_space c) s"

text \<open>
  A string of the form \<^verbatim>\<open>[Fetch error for {url}: ...]\<close>, as the specification
  describes the error placeholder.
\<close>

definition is_fetch_error :: "pyval \<Rightarrow> string \<Rightarrow> bool" where
  "is_fetch_error url content =
     (prefix (''[Fetch error for '' @ fmt url @ '': '') content \<and> suffix '']'' content)"

text \<open>
  The acceptance test of \<^verbatim>\<open>strong_sources\<close>, read off a finished source: its link is
  whitelisted or its content has at least 800 characters.
\<close>

definition whitelisted_or_long :: "pydict \<Rightarrow> bool" where
  "whitelisted_or_long s =
     (is_whitelisted (get s ''link'') \<or> 800 \<le> length (or_str (get s ''content'') []))"

text \<open>
  The same test as the specification words it: the content counts only when it is
  neither empty nor an error placeholder.
\<close>

definition whitelisted_or_long_no_error :: "pydict \<Rightarrow> bool" where
  "whitelisted_or_long_no_error s =
     (is_whitelisted (get s ''link'')
      \<or> (800 \<le> length (or_str (get s ''content'') [])
          \<and> or_str (get s ''content'') [] \<noteq> []
          \<and> \<not> is_fetch_error (get s ''link'') (or_str (get s ''content'') [])))"

text \<open>
  A source holds what the extractor returned for its link, according to the extractor
  calls of a trace.
\<close>

definition fetched_in :: "event list \<Rightarrow> pydict \<Rightarrow> bool" where
  "fetched_in evs s =
     (case s ''content'' of
        Some (PStr c) \<Rightarrow> (get s ''link'', Inr c) \<in> set (extracted evs)
      | _ \<Rightarrow> False)"

subsection \<open>A small world to run the pipeline in\<close>

text \<open>
  The world is a counter of the external calls made. Every variant of the query
  \<open>wonders\<close> gets the same six results, any other query none. Three pages
  download as nothing, so that the plain GET is tried: the encyclopedia page then has
  an empty body, the blog times out, and the third page fails with a message of 800
  characters. Every other page extracts to a short text padded with blanks. The LLM
  answers with one text part, and an \<^verbatim>\<open>HTTPException\<close> prints as Starlette prints
  it, the status code before the detail.
\<close>

definition wiki_link :: string where
  "wiki_link = ''https://en.wikipedia.org/wiki/W''"

definition blog_link :: string where
  "blog_link = ''https://blog.example/w''"

definition slow_link :: string where
  "slow_link = ''https://slow.example/''"

definition wiki_result :: pydict where
  "wiki_result = [''title'' \<mapsto> PStr ''Wonders'', ''link'' \<mapsto> PStr wiki_link]"

definition blog_result :: pydict where
  "blog_result = [''title'' \<mapsto> PStr ''Blog'', ''link'' \<mapsto> PStr blog_link,
                  ''snippet'' \<mapsto> PStr ''seven wonders'']"

definition slow_result :: pydict where
  "slow_result = [''title'' \<mapsto> PStr ''Slow'', ''link'' \<mapsto> PStr slow_link]"

definition untitled_result :: pydict where
  "untitled_result = [''link'' \<mapsto> PStr ''https://x.example/'']"

definition linkless_result :: pydict where
  "linkless_result = [''title'' \<mapsto> PStr ''No link'']"

definition demo_results :: "pydict list" where
  "demo_results =
     [wiki_result, blog_result, wiki_result, slow_result, untitled_result, linkless_result]"

definition demo_env :: "nat env" where
  "demo_env =
     \<lparr>cse_list = (\<lambda>w q num.
          (if take 7 q = ''wonders'' then Inr (Some demo_results) else Inr None, Suc w)),
      trafilatura_fetch_url = (\<lambda>w url.
          (if url = PStr wiki_link \<or> url = PStr blog_link \<or> url = PStr slow_link
           then Inr None
           else Inr (Some ''<p>  Main text  </p>''), Suc w)),
      trafilatura_extract = (\<lambda>d. Inr (Some ''  Main text  '')),
      session_get = (\<lambda>w url.
          (if url = PStr blog_link then Inl (OtherError ''timeout'')
           else if url = PStr slow_link then Inl (OtherError (replicate 800 (CHR ''x'')))
           else Inr \<lparr>raise_for_status = None, resp_text = []\<rparr>, Suc w)),
      soup_text = (\<lambda>markup. Inr markup),
      messages_create = (\<lambda>w system user.
          (Inr [\<lparr>part_type = ''text'', part_text = '' See [1]. ''\<rparr>], Suc w)),
      http_exception_str = (\<lambda>code detail. str_nat (nat code) @ '': '' @ detail)\<rparr>"

definition demo_state :: "nat state" where
  "demo_state = \<lparr>world = 0, trace = []\<rparr>"




text \<open>
  A world in which no page has any text: every download gives nothing and every plain
  GET an empty body. The heritage list is a second whitelisted page.
\<close>

definition unesco_link :: string where
  "unesco_link = ''https://whc.unesco.org/en/list/''"

definition unesco_result :: pydict where
  "unesco_result = [''title'' \<mapsto> PStr ''World Heritage List'', ''link'' \<mapsto> PStr unesco_link]"

definition bare_env :: "nat env" where
  "bare_env =
     demo_env\<lparr>trafilatura_fetch_url := (\<lambda>w url. (Inr None, Suc w)),
              session_get := (\<lambda>w url.
                (Inr \<lparr>raise_for_status = None, resp_text = []\<rparr>, Suc w))\<rparr>"

text \<open>
  A second world, whose search provider never repeats itself: the call number \<open>w\<close>
  answers with the ten results numbered \<open>10 * w + 1\<close> to \<open>10 * w + 10\<close>.
\<close>

definition numbered_result :: "nat \<Rightarrow> pydict" where
  "numbered_result n =
     [''title'' \<mapsto> PStr (''Page '' @ str_nat n),
      ''link'' \<mapsto> PStr (''https://site.example/'' @ str_nat n)]"

definition busy_env :: "nat env" where
  "busy_env =
     demo_env\<lparr>cse_list := (\<lambda>w q num.
        (Inr (Some (map (\<lambda>i. numbered_result (10 * w + i)) [1, 2, 3, 4, 5, 6, 7, 8, 9, 10])),
         Suc w))\<rparr>"

section \<open>Query expansion\<close>

lemma py_take_nonneg: "0 \<le> n \<Longrightarrow> py_take n xs = take (nat n) xs"
  by (simp add: py_take_def)

lemma google_search_once_trace:
  "google_search_once E q n \<sigma> = (r, \<sigma>') \<Longrightarrow> trace \<sigma>' = trace \<sigma> @ [SearchCall q r]"
  by (auto simp: google_search_once_def Let_def split: prod.splits)

subsection \<open>The budget\<close>

lemma merge_results_length:
  "int (length items) < budget \<Longrightarrow>
   int (length (snd (merge_results budget rs (seen, items)))) \<le> budget"
  by (induction rs arbitrary: seen items) (simp_all add: Let_def)

lemma search_variants_length:
  "search_variants E budget qs (seen, items) \<sigma> = (Inr (seen', items'), \<sigma>') \<Longrightarrow>
   int (length items) < budget \<Longrightarrow> int (length items') \<le> budget"
proof (induction qs arbitrary: seen items \<sigma>)
  case Nil
  then show ?case by simp
next
  case (Cons q qs)
  obtain r \<sigma>1 where g: "google_search_once E q 10 \<sigma> = (r, \<sigma>1)"
    by (cases "google_search_once E q 10 \<sigma>")
  show ?case
  proof (cases r)
    case (Inl e)
    with Cons.prems g show ?thesis by simp
  next
    case (Inr results)
    obtain seen1 items1 where m: "merge_results budget results (seen, items) = (seen1, items1)"
      by (cases "merge_results budget results (seen, items)")
    have len1: "int (length items1) \<le> budget"
      using merge_results_length [OF Cons.prems(2), of results seen] m by simp
    show ?thesis
    proof (cases "int (length items1) \<ge> budget")
      case True
      with Cons.prems g Inr m len1 show ?thesis by simp
    next
      case False
      with Cons.prems g Inr m
      have "search_variants E budget qs (seen1, items1) \<sigma>1 = (Inr (seen', items'), \<sigma>')"
        by simp
      with Cons.IH False show ?thesis by simp
    qed
  qed
qed

lemma smart_search_items_Inr:
  assumes "smart_search_items E query k \<sigma> = (Inr items, \<sigma>')"
  obtains seen' where
    "search_variants E (max 12 (k * 2)) (queries_of query) ({}, []) \<sigma> = (Inr (seen', items), \<sigma>')"
proof -
  obtain r \<sigma>1 where sv: "search_variants E (max 12 (k * 2)) (queries_of query) ({}, []) \<sigma> = (r, \<sigma>1)"
    by (cases "search_variants E (max 12 (k * 2)) (queries_of query) ({}, []) \<sigma>")
  show ?thesis
  proof (cases r)
    case (Inl e)
    with assms sv show ?thesis by (simp add: smart_search_items_def)
  next
    case (Inr acc)
    obtain seen1 items1 where acc: "acc = (seen1, items1)"
      by (cases acc)
    with assms sv Inr have "items1 = items" "\<sigma>1 = \<sigma>'"
      by (simp_all add: smart_search_items_def)
    with sv Inr acc that [of seen1] show ?thesis by simp
  qed
qed

text \<open>
  Claim C4. Whatever the query, the value of \<open>k\<close> and the answers of the provider:
  when the expansion comes back, the merged list \<^verbatim>\<open>items\<close> holds at most
  \<open>max(12, k*2)\<close> entries before the title/link filter, and \<^verbatim>\<open>smart_search\<close>
  returns at most \<open>max(10, k)\<close> entries.
\<close>

theorem smart_search_bounds:
  assumes "smart_search_items E query k \<sigma> = (Inr items, \<sigma>')"
  shows "int (length items) \<le> max 12 (k * 2) \<and>
    (\<exists>good. smart_search E query k \<sigma> = (Inr good, \<sigma>') \<and> int (length good) \<le> max 10 k)"
proof -
  from assms obtain seen' where
    sv: "search_variants E (max 12 (k * 2)) (queries_of query) ({}, []) \<sigma>
         = (Inr (seen', items), \<sigma>')"
    by (rule smart_search_items_Inr)
  have "int (length items) \<le> max 12 (k * 2)"
    using search_variants_length [OF sv] by simp
  moreover have
    "\<exists>good. smart_search E query k \<sigma> = (Inr good, \<sigma>') \<and> int (length good) \<le> max 10 k"
    using assms by (simp add: smart_search_def Let_def py_take_nonneg)
  ultimately show ?thesis by simp
qed

lemmas demo_defs =
  demo_env_def demo_state_def demo_results_def wiki_result_def blog_result_def
  slow_result_def untitled_result_def linkless_result_def wiki_link_def blog_link_def
  slow_link_def

lemmas busy_defs = busy_env_def numbered_result_def str_nat.simps digit_char_def

lemma busy_items:
  "\<exists>items \<sigma>'. smart_search_items busy_env ''q'' 1 demo_state = (Inr items, \<sigma>')
     \<and> length items = 12 \<and> length (trace \<sigma>') = 2"
  by (simp add: smart_search_items_def queries_of_def AUTHORITATIVE_HINTS_def
        google_search_once_def busy_defs demo_defs get_def Let_def)

theorem smart_search_bounds_witness:
  "\<exists>items good \<sigma>'.
     smart_search_items busy_env ''q'' 1 demo_state = (Inr items, \<sigma>')
     \<and> smart_search busy_env ''q'' 1 demo_state = (Inr good, \<sigma>')
     \<and> length items = 12 \<and> int (length items) \<le> max 12 (1 * 2)
     \<and> int (length good) \<le> max 10 1"
proof -
  from busy_items obtain items \<sigma>' where
    h: "smart_search_items busy_env ''q'' 1 demo_state = (Inr items, \<sigma>')"
    and l: "length items = 12"
    by blast
  from smart_search_bounds [OF h] l h show ?thesis
    by blast
qed

subsection \<open>De-duplication\<close>

lemma dedup_links_append:
  "dedup_links seen (xs @ ys) =
   dedup_links seen xs @ dedup_links (seen \<union> {l \<in> (\<lambda>r. get r ''link'') ` set xs. truthy l}) ys"
proof (induction xs arbitrary: seen)
  case Nil
  then show ?case by simp
next
  case (Cons x xs)
  have eq1: "insert (get x ''link'') seen \<union> {l \<in> (\<lambda>r. get r ''link'') ` set xs. truthy l}
       = seen \<union> {l \<in> (\<lambda>r. get r ''link'') ` set (x # xs). truthy l}" if "truthy (get x ''link'')"
    using that by auto
  have eq2: "seen \<union> {l \<in> (\<lambda>r. get r ''link'') ` set xs. truthy l}
       = seen \<union> {l \<in> (\<lambda>r. get r ''link'') ` set (x # xs). truthy l}"
    if "\<not> truthy (get x ''link'') \<or> get x ''link'' \<in> seen"
    using that by auto
  show ?case
  proof (cases "truthy (get x ''link'') \<and> get x ''link'' \<notin> seen")
    case True
    then show ?thesis using Cons.IH [of "insert (get x ''link'') seen"] eq1 by simp
  next
    case False
    then show ?thesis using Cons.IH [of seen] eq2 by auto
  qed
qed

lemma dedup_links_fresh:
  "(\<lambda>r. get r ''link'') ` set (dedup_links seen rs) \<inter> seen = {}"
  by (induction rs arbitrary: seen) auto

lemma dedup_links_distinct: "distinct (map (\<lambda>r. get r ''link'') (dedup_links seen rs))"
proof (induction rs arbitrary: seen)
  case Nil
  then show ?case by simp
next
  case (Cons r rs)
  show ?case
    using Cons.IH dedup_links_fresh [of "insert (get r ''link'') seen" rs] by auto
qed

lemma merge_results_spec:
  "int (length items) < budget \<Longrightarrow> merge_results budget rs (seen, items) = (seen', items') \<Longrightarrow>
     items' = take (nat budget) (items @ dedup_links seen rs) \<and>
     (int (length items') < budget \<longrightarrow>
        seen' = seen \<union> {l \<in> (\<lambda>r. get r ''link'') ` set rs. truthy l})"
proof (induction rs arbitrary: seen items)
  case Nil
  then show ?case by auto
next
  case (Cons r rs)
  let ?l = "get r ''link''"
  show ?case
  proof (cases "\<not> truthy ?l \<or> ?l \<in> seen")
    case True
    with Cons.prems have "merge_results budget rs (seen, items) = (seen', items')"
      by (simp add: Let_def)
    from Cons.IH [OF Cons.prems(1) this] True show ?thesis by auto
  next
    case False
    show ?thesis
    proof (cases "int (length (items @ [r])) \<ge> budget")
      case True
      with False Cons.prems have "seen' = insert ?l seen" "items' = items @ [r]"
        by (simp_all add: Let_def)
      moreover from True Cons.prems(1) have "nat budget = Suc (length items)"
        by simp
      ultimately show ?thesis using False True by simp
    next
      case ge: False
      with False Cons.prems
      have m: "merge_results budget rs (insert ?l seen, items @ [r]) = (seen', items')"
        by (simp add: Let_def)
      from ge have "int (length (items @ [r])) < budget" by simp
      from Cons.IH [OF this m] False show ?thesis by auto
    qed
  qed
qed


lemma take_short: "length (take n xs) < n \<Longrightarrow> take n xs = xs"
  by (simp add: min_def split: if_splits)

lemma search_variants_spec:
  "search_variants E budget qs (seen, items) \<sigma> = (Inr (seen', items'), \<sigma>') \<Longrightarrow>
   int (length items) < budget \<Longrightarrow>
   \<exists>evs. trace \<sigma>' = trace \<sigma> @ evs \<and> prefix (searched evs) qs \<and> list_all is_SearchCall evs \<and>
         items' = take (nat budget) (items @ dedup_links seen (responses_of evs))"
proof (induction qs arbitrary: seen items \<sigma>)
  case Nil
  then have "trace \<sigma>' = trace \<sigma> @ []" "items' = take (nat budget) (items @ dedup_links seen (responses_of []))"
    by simp_all
  then show ?case by (intro exI [of _ "[]"]) simp
next
  case (Cons q qs)
  obtain r \<sigma>1 where g: "google_search_once E q 10 \<sigma> = (r, \<sigma>1)"
    by (cases "google_search_once E q 10 \<sigma>")
  have tr1: "trace \<sigma>1 = trace \<sigma> @ [SearchCall q r]"
    by (rule google_search_once_trace [OF g])
  show ?case
  proof (cases r)
    case (Inl e)
    with Cons.prems g show ?thesis by simp
  next
    case (Inr results)
    obtain seen1 items1 where m: "merge_results budget results (seen, items) = (seen1, items1)"
      by (cases "merge_results budget results (seen, items)")
    from merge_results_spec [OF Cons.prems(2) m]
    have i1: "items1 = take (nat budget) (items @ dedup_links seen results)"
      and s1: "int (length items1) < budget \<Longrightarrow>
               seen1 = seen \<union> {l \<in> (\<lambda>r. get r ''link'') ` set results. truthy l}"
      by simp_all
    show ?thesis
    proof (cases "int (length items1) \<ge> budget")
      case True
      with Cons.prems g Inr m have "items' = items1" "\<sigma>' = \<sigma>1" by simp_all
      with tr1 i1 Inr show ?thesis
        by (intro exI [of _ "[SearchCall q (Inr results)]"]) simp
    next
      case False
      with Cons.prems g Inr m
      have sv: "search_variants E budget qs (seen1, items1) \<sigma>1 = (Inr (seen', items'), \<sigma>')"
        by simp
      from False have lt: "int (length items1) < budget" by simp
      from Cons.IH [OF sv lt] obtain evs where
        e1: "trace \<sigma>' = trace \<sigma>1 @ evs" and e2: "prefix (searched evs) qs"
        and e3: "list_all is_SearchCall evs"
        and e4: "items' = take (nat budget) (items1 @ dedup_links seen1 (responses_of evs))"
        by blast
      from lt i1 have "length (take (nat budget) (items @ dedup_links seen results)) < nat budget"
        by simp
      then have full: "items1 = items @ dedup_links seen results"
        using i1 take_short by metis
      have "items' = take (nat budget)
              (items @ dedup_links seen (responses_of (SearchCall q (Inr results) # evs)))"
        using e4 full s1 [OF lt] by (simp add: dedup_links_append)
      with e1 e2 e3 tr1 Inr show ?thesis
        by (intro exI [of _ "SearchCall q (Inr results) # evs"]) simp
    qed
  qed
qed

lemma subseq_take_left: "subseq (take n xs) xs"
  by (induction xs arbitrary: n) (auto simp: take_Cons split: nat.splits)

text \<open>
  Claim C5. Whatever the provider answers, also when a link comes back under several
  variants: no two entries of the merged list \<^verbatim>\<open>items\<close> have the same link, and the
  list is the stream of the results received, in the order of the calls, reduced to
  the first occurrence of every usable link and cut at the budget. The calls made are
  the first variants, in their order. What \<^verbatim>\<open>smart_search\<close> returns is a
  subsequence of that list, so its links are distinct too.
\<close>

theorem smart_search_dedup:
  assumes "smart_search_items E query k \<sigma> = (Inr items, \<sigma>')"
  shows "distinct (map (\<lambda>it. get it ''link'') items) \<and>
    (\<exists>evs. trace \<sigma>' = trace \<sigma> @ evs \<and> prefix (searched evs) (queries_of query) \<and>
       items = take (nat (max 12 (k * 2))) (dedup_links {} (responses_of evs))) \<and>
    (\<exists>good. smart_search E query k \<sigma> = (Inr good, \<sigma>') \<and> subseq good items \<and>
       distinct (map (\<lambda>it. get it ''link'') good))"
proof -
  from assms obtain seen' where
    sv: "search_variants E (max 12 (k * 2)) (queries_of query) ({}, []) \<sigma>
         = (Inr (seen', items), \<sigma>')"
    by (rule smart_search_items_Inr)
  have "int (length ([] :: pydict list)) < max 12 (k * 2)"
    by simp
  from search_variants_spec [OF sv this] obtain evs where
    e: "trace \<sigma>' = trace \<sigma> @ evs" "prefix (searched evs) (queries_of query)"
       "items = take (nat (max 12 (k * 2))) (dedup_links {} (responses_of evs))"
    by auto
  have d: "distinct (map (\<lambda>it. get it ''link'') items)"
    unfolding e(3) take_map [symmetric] by (rule distinct_take) (rule dedup_links_distinct)
  let ?good = "py_take (max 10 k)
      (filter (\<lambda>it. truthy (get it ''title'') \<and> truthy (get it ''link'')) items)"
  have g: "smart_search E query k \<sigma> = (Inr ?good, \<sigma>')"
    using assms by (simp add: smart_search_def Let_def)
  have "subseq ?good (filter (\<lambda>it. truthy (get it ''title'') \<and> truthy (get it ''link'')) items)"
    by (simp add: py_take_nonneg subseq_take_left)
  then have sub: "subseq ?good items"
    by (rule subseq_order.order_trans) simp
  have "distinct (map (\<lambda>it. get it ''link'') ?good)"
    using d by (simp add: py_take_nonneg take_map [symmetric] distinct_map_filter)
  with d e g sub show ?thesis by blast
qed

lemma demo_items:
  "\<exists>items \<sigma>'. smart_search_items demo_env ''wonders'' 6 demo_state = (Inr items, \<sigma>')
     \<and> map (\<lambda>it. get it ''link'') items
         = [PStr wiki_link, PStr blog_link, PStr slow_link, PStr ''https://x.example/'']
     \<and> length (trace \<sigma>') = 8"
  by (simp add: smart_search_items_def queries_of_def AUTHORITATIVE_HINTS_def
        google_search_once_def demo_defs get_def Let_def)

theorem smart_search_dedup_witness:
  "\<exists>items \<sigma>'.
     smart_search_items demo_env ''wonders'' 6 demo_state = (Inr items, \<sigma>')
     \<and> map (\<lambda>it. get it ''link'') items
         = [PStr wiki_link, PStr blog_link, PStr slow_link, PStr ''https://x.example/'']
     \<and> distinct (map (\<lambda>it. get it ''link'') items)
     \<and> (\<exists>evs. trace \<sigma>' = trace demo_state @ evs
            \<and> prefix (searched evs) (queries_of ''wonders'')
            \<and> items = take (nat (max 12 (6 * 2))) (dedup_links {} (responses_of evs)))
     \<and> (\<exists>good. smart_search demo_env ''wonders'' 6 demo_state = (Inr good, \<sigma>')
            \<and> subseq good items \<and> distinct (map (\<lambda>it. get it ''link'') good))"
proof -
  from demo_items obtain items \<sigma>' where
    h: "smart_search_items demo_env ''wonders'' 6 demo_state = (Inr items, \<sigma>')"
    and l: "map (\<lambda>it. get it ''link'') items
            = [PStr wiki_link, PStr blog_link, PStr slow_link, PStr ''https://x.example/'']"
    by (elim exE conjE)
  from smart_search_dedup [OF h] h l show ?thesis
    by (intro exI [of _ items] exI [of _ \<sigma>']) simp
qed

section \<open>Extraction\<close>

lemma fetch_text_returns:
  "\<exists>content. fetch_text E url max_chars \<sigma> =
     (Inr content, \<lparr>world = snd (fetch_text_try E url max_chars (world \<sigma>)),
                    trace = trace \<sigma> @ [ExtractCall url (Inr content)]\<rparr>)"
  by (cases "fetch_text_try E url max_chars (world \<sigma>)")
     (simp add: fetch_text_def Let_def split: sum.splits)

lemma fetch_text_cases:
  "fst (fetch_text E url max_chars \<sigma>) =
     (case fst (fetch_text_try E url max_chars (world \<sigma>)) of
        Inl e \<Rightarrow> Inr (fetch_error E url e) | Inr text \<Rightarrow> Inr text)"
  by (cases "fetch_text_try E url max_chars (world \<sigma>)")
     (simp add: fetch_text_def Let_def split: sum.splits)

text \<open>
  Claim C7. For every URL, limit and world, \<^verbatim>\<open>fetch_text\<close> returns a string and
  raises nothing; whenever its \<^verbatim>\<open>try\<close> block fails with an exception \<open>e\<close>, be it
  in the download, the extraction, the GET, the status check or the parsing, the string
  is the placeholder \<^verbatim>\<open>[Fetch error for {url}: {e}]\<close>.
\<close>

theorem fetch_text_never_raises:
  "(\<exists>content. fst (fetch_text E url max_chars \<sigma>) = Inr content) \<and>
   (\<forall>e. fst (fetch_text_try E url max_chars (world \<sigma>)) = Inl e \<longrightarrow>
        fst (fetch_text E url max_chars \<sigma>)
        = Inr (''[Fetch error for '' @ fmt url @ '': '' @ str_exc E e @ '']''))"
  by (simp add: fetch_text_cases fetch_error_def split: sum.splits)

lemma demo_blog_try:
  "fst (fetch_text_try demo_env (PStr blog_link) 30000 (world demo_state))
   = Inl (OtherError ''timeout'')"
  by (simp add: fetch_text_try_def fetch_text_fallback_def demo_defs)

theorem fetch_text_never_raises_witness:
  "fst (fetch_text_try demo_env (PStr blog_link) 30000 (world demo_state))
     = Inl (OtherError ''timeout'')
   \<and> fst (fetch_text demo_env (PStr blog_link) 30000 demo_state)
     = Inr ''[Fetch error for https://blog.example/w: timeout]''"
proof -
  from fetch_text_never_raises [of demo_env "PStr blog_link" 30000 demo_state] demo_blog_try
  have "fst (fetch_text demo_env (PStr blog_link) 30000 demo_state)
        = Inr (''[Fetch error for '' @ fmt (PStr blog_link) @ '': ''
               @ str_exc demo_env (OtherError ''timeout'') @ '']'')"
    by blast
  with demo_blog_try show ?thesis
    by (simp add: blog_link_def)
qed

subsection \<open>The length of the extracted text\<close>

lemma py_take_length: "0 \<le> n \<Longrightarrow> int (length (py_take n xs)) \<le> n"
  by (simp add: py_take_def)

lemma fetch_text_fallback_length:
  "0 \<le> max_chars \<Longrightarrow> fetch_text_fallback E url max_chars w = (Inr text, w') \<Longrightarrow>
   int (length text) \<le> max_chars"
  by (auto simp: fetch_text_fallback_def Let_def py_take_length
           split: prod.splits sum.splits option.splits if_splits)

lemma fetch_text_try_length:
  "0 \<le> max_chars \<Longrightarrow> fetch_text_try E url max_chars w = (Inr text, w') \<Longrightarrow>
   int (length text) \<le> max_chars"
  by (auto simp: fetch_text_try_def py_take_length
           split: prod.splits sum.splits option.splits if_splits
           dest: fetch_text_fallback_length)

text \<open>
  Claim C8 says that the returned string, the error placeholder included, is at most
  \<open>max_chars\<close> long. The placeholder is returned as it is, and a negative
  \<open>max_chars\<close> cuts from the end of the text instead: the blog's placeholder has 49
  characters under a limit of 5, and the limit \<open>-1\<close> leaves 8 characters.
\<close>

theorem fetch_text_exceeds_max_chars:
  "fst (fetch_text demo_env (PStr blog_link) 5 demo_state)
     = Inr ''[Fetch error for https://blog.example/w: timeout]''
   \<and> \<not> int (length ''[Fetch error for https://blog.example/w: timeout]'') \<le> 5
   \<and> fst (fetch_text demo_env (PStr ''https://x.example/'') (- 1) demo_state) = Inr ''Main tex''
   \<and> \<not> int (length ''Main tex'') \<le> - 1"
  by (simp add: fetch_text_cases fetch_text_try_def fetch_text_fallback_def fetch_error_def
        demo_defs strip_def is_space_def py_take_def)


text \<open>
  Claim C8, amended. For every URL and every \<open>max_chars \<ge> 0\<close>: when the \<^verbatim>\<open>try\<close>
  block ends without an exception, the returned text has at most \<open>max_chars\<close>
  characters. When it fails, the placeholder comes back whole, whatever the limit:
  20 characters around the URL and the message of the exception.
\<close>

theorem fetch_text_length:
  "(\<forall>body. 0 \<le> max_chars \<and> fst (fetch_text_try E url max_chars (world \<sigma>)) = Inr body \<longrightarrow>
      fst (fetch_text E url max_chars \<sigma>) = Inr body \<and> int (length body) \<le> max_chars) \<and>
   (\<forall>e. fst (fetch_text_try E url max_chars (world \<sigma>)) = Inl e \<longrightarrow>
      (\<exists>content. fst (fetch_text E url max_chars \<sigma>) = Inr content \<and>
         length content = 20 + length (fmt url) + length (str_exc E e)))"
proof (intro conjI allI impI)
  fix body
  assume a: "0 \<le> max_chars \<and> fst (fetch_text_try E url max_chars (world \<sigma>)) = Inr body"
  then show "fst (fetch_text E url max_chars \<sigma>) = Inr body"
    by (simp add: fetch_text_cases)
  from a obtain w' where w: "fetch_text_try E url max_chars (world \<sigma>) = (Inr body, w')"
    by (cases "fetch_text_try E url max_chars (world \<sigma>)") simp
  from a have "0 \<le> max_chars"
    by simp
  from fetch_text_try_length [OF this w] show "int (length body) \<le> max_chars" .
next
  fix e
  assume "fst (fetch_text_try E url max_chars (world \<sigma>)) = Inl e"
  then show "\<exists>content. fst (fetch_text E url max_chars \<sigma>) = Inr content \<and>
         length content = 20 + length (fmt url) + length (str_exc E e)"
    by (simp add: fetch_text_cases fetch_error_def)
qed

lemma demo_page_try:
  "fst (fetch_text_try demo_env (PStr ''https://x.example/'') 4 (world demo_state)) = Inr ''Main''"
  by (simp add: fetch_text_try_def demo_defs strip_def is_space_def py_take_def)

theorem fetch_text_length_witness:
  "(0::int) \<le> 4
   \<and> fst (fetch_text_try demo_env (PStr ''https://x.example/'') 4 (world demo_state)) = Inr ''Main''
   \<and> fst (fetch_text demo_env (PStr ''https://x.example/'') 4 demo_state) = Inr ''Main''
   \<and> int (length ''Main'') \<le> 4
   \<and> fst (fetch_text_try demo_env (PStr blog_link) 4 (world demo_state))
       = Inl (OtherError ''timeout'')
   \<and> (\<exists>content. fst (fetch_text demo_env (PStr blog_link) 4 demo_state) = Inr content
        \<and> length content = 20 + length (fmt (PStr blog_link))
                            + length (str_exc demo_env (OtherError ''timeout'')))"
proof -
  have b: "fst (fetch_text_try demo_env (PStr blog_link) 4 (world demo_state))
           = Inl (OtherError ''timeout'')"
    by (simp add: fetch_text_try_def fetch_text_fallback_def demo_defs)
  from fetch_text_length [of 4 demo_env "PStr ''https://x.example/''" demo_state] demo_page_try
  have 1: "fst (fetch_text demo_env (PStr ''https://x.example/'') 4 demo_state) = Inr ''Main''
           \<and> int (length ''Main'') \<le> 4"
    by simp
  from fetch_text_length [of 4 demo_env "PStr blog_link" demo_state] b
  have 2: "\<exists>content. fst (fetch_text demo_env (PStr blog_link) 4 demo_state) = Inr content
        \<and> length content = 20 + length (fmt (PStr blog_link))
                            + length (str_exc demo_env (OtherError ''timeout''))"
    by blast
  from 1 2 b demo_page_try show ?thesis
    by simp
qed

section \<open>Qualification\<close>

lemma source_dict_get [simp]:
  "get (source_dict t l c) ''title'' = t"
  "get (source_dict t l c) ''link'' = l"
  "get (source_dict t l c) ''content'' = c"
  by (simp_all add: source_dict_def get_def)

lemma source_dict_apply [simp]:
  "source_dict t l c ''title'' = Some t"
  "source_dict t l c ''link'' = Some l"
  "source_dict t l c ''content'' = Some c"
  by (simp_all add: source_dict_def)

lemma extracted_append [simp]: "extracted (xs @ ys) = extracted xs @ extracted ys"
  by (induction xs rule: extracted.induct) simp_all

lemma fetched_in_prepend: "fetched_in evs s \<Longrightarrow> fetched_in (pre @ evs) s"
  by (auto simp: fetched_in_def split: option.splits pyval.splits)

lemma fetched_in_append: "fetched_in evs s \<Longrightarrow> fetched_in (evs @ post) s"
  by (auto simp: fetched_in_def split: option.splits pyval.splits)

lemma strong_sources_loop_returns:
  "\<exists>out \<sigma>'. strong_sources_loop E k rs acc \<sigma> = (Inr out, \<sigma>')"
proof (induction rs arbitrary: acc \<sigma>)
  case Nil
  then show ?case by simp
next
  case (Cons r rs)
  obtain content \<sigma>1 where
    "fetch_text E (get r ''link'') fetch_text_max_chars \<sigma> = (Inr content, \<sigma>1)"
    using fetch_text_returns by blast
  with Cons.IH show ?case
    by (simp add: Let_def)
qed

lemma strong_sources_loop_inv:
  "strong_sources_loop E k rs acc \<sigma> = (Inr out, \<sigma>') \<Longrightarrow>
   \<exists>new evs. out = acc @ new \<and> trace \<sigma>' = trace \<sigma> @ evs \<and>
     (\<forall>s \<in> set new. whitelisted_or_long s \<and> truthy (get s ''link'') \<and> fetched_in evs s)"
proof (induction rs arbitrary: acc \<sigma>)
  case Nil
  then have "out = acc @ []" "trace \<sigma>' = trace \<sigma> @ []" by simp_all
  then show ?case by (intro exI [of _ "[]"]) simp
next
  case (Cons r rs)
  let ?link = "get r ''link''"
  let ?title = "PStr (or_str (get r ''title'') ''Untitled'')"
  show ?case
  proof (cases "truthy ?link")
    case False
    with Cons.prems have "strong_sources_loop E k rs acc \<sigma> = (Inr out, \<sigma>')"
      by (simp add: Let_def)
    from Cons.IH [OF this] show ?thesis .
  next
    case True
    obtain content \<sigma>1 where
      f: "fetch_text E ?link fetch_text_max_chars \<sigma> = (Inr content, \<sigma>1)"
      and t1: "trace \<sigma>1 = trace \<sigma> @ [ExtractCall ?link (Inr content)]"
      using fetch_text_returns [of E ?link fetch_text_max_chars \<sigma>] by auto
    define ev where "ev = ExtractCall ?link (Inr content)"
    define src where "src = source_dict ?title ?link (PStr content)"
    define acc' where
      "acc' = (if is_whitelisted ?link \<or> long_enough content then acc @ [src] else acc)"
    have ok: "whitelisted_or_long src \<and> truthy (get src ''link'') \<and> fetched_in [ev] src"
      if "is_whitelisted ?link \<or> long_enough content"
      using that True
      by (auto simp: src_def ev_def whitelisted_or_long_def long_enough_def fetched_in_def or_str_def)
    obtain new1 where n1: "acc' = acc @ new1"
      and q1: "\<forall>s \<in> set new1. whitelisted_or_long s \<and> truthy (get s ''link'') \<and> fetched_in [ev] s"
      using ok by (cases "is_whitelisted ?link \<or> long_enough content") (auto simp: acc'_def)
    have step: "strong_sources_loop E k (r # rs) acc \<sigma> =
        (if int (length acc') \<ge> k then (Inr acc', \<sigma>1)
         else strong_sources_loop E k rs acc' \<sigma>1)"
      using True f by (simp add: Let_def acc'_def src_def)
    note run = Cons.prems [unfolded step]
    show ?thesis
    proof (cases "int (length acc') \<ge> k")
      case ge: True
      with run have "out = acc'" "\<sigma>' = \<sigma>1"
        by simp_all
      with n1 q1 t1 show ?thesis
        by (intro exI [of _ new1] exI [of _ "[ev]"]) (simp add: ev_def)
    next
      case lt: False
      with run have "strong_sources_loop E k rs acc' \<sigma>1 = (Inr out, \<sigma>')"
        by simp
      from Cons.IH [OF this] obtain new2 evs where
        o: "out = acc' @ new2" and t2: "trace \<sigma>' = trace \<sigma>1 @ evs"
        and q2: "\<forall>s \<in> set new2. whitelisted_or_long s \<and> truthy (get s ''link'') \<and> fetched_in evs s"
        by blast
      have "\<forall>s \<in> set (new1 @ new2).
              whitelisted_or_long s \<and> truthy (get s ''link'') \<and> fetched_in (ev # evs) s"
        using q1 q2 fetched_in_prepend [of evs _ "[ev]"] fetched_in_append [of "[ev]" _ evs]
        by auto
      with o n1 t1 t2 show ?thesis
        by (intro exI [of _ "new1 @ new2"] exI [of _ "ev # evs"]) (simp add: ev_def)
    qed
  qed
qed


lemmas whitelist_defs =
  is_whitelisted_def WHITELIST_DOMAINS_def or_str_def py_in_def sublist_code prefix_code

text \<open>
  Claim C2 asks of every source that \<^verbatim>\<open>strong_sources\<close> selects: a whitelisted
  link, or a content of at least 800 characters that is not empty and not an error
  placeholder. The code tests the length only. The page whose fetch fails with a
  message of 800 characters is not whitelisted, and its placeholder is accepted as
  content.
\<close>

theorem strong_sources_accepts_error_placeholder:
  "(case fst (strong_sources demo_env [slow_result] 6 demo_state) of
      Inr [s] \<Rightarrow>
        \<not> is_whitelisted (get s ''link'')
        \<and> is_fetch_error (get s ''link'') (or_str (get s ''content'') [])
        \<and> \<not> whitelisted_or_long_no_error s
    | _ \<Rightarrow> False)"
  by (simp add: strong_sources_def fetch_text_def fetch_text_try_def fetch_text_fallback_def
        fetch_error_def fetch_text_max_chars_def long_enough_def
        whitelisted_or_long_no_error_def is_fetch_error_def suffix_to_prefix
        whitelist_defs demo_defs get_def Let_def source_dict_def)

text \<open>
  Claim C2, amended. For every candidate list, every \<open>k\<close> and every world, each
  source that \<^verbatim>\<open>strong_sources\<close> returns has a link containing a whitelisted
  domain or a content of at least 800 characters, and that content is what the
  extractor returned for the link during the call, an error placeholder included.
\<close>

theorem strong_sources_qualified:
  assumes "strong_sources E results k \<sigma> = (Inr sources, \<sigma>')"
  shows "\<exists>evs. trace \<sigma>' = trace \<sigma> @ evs \<and>
           (\<forall>s \<in> set sources. whitelisted_or_long s \<and> fetched_in evs s)"
  using strong_sources_loop_inv [of E k results "[]" \<sigma> sources \<sigma>'] assms
  unfolding strong_sources_def by auto

lemma demo_strong:
  "\<exists>s1 s2 \<sigma>'. strong_sources demo_env [wiki_result, blog_result, slow_result] 6 demo_state
       = (Inr [s1, s2], \<sigma>')
     \<and> get s1 ''link'' = PStr wiki_link \<and> get s1 ''content'' = PStr []
     \<and> get s2 ''link'' = PStr slow_link"
  by (simp add: strong_sources_def fetch_text_def fetch_text_try_def fetch_text_fallback_def
        fetch_error_def fetch_text_max_chars_def splitlines_def long_enough_def
        whitelist_defs demo_defs get_def py_take_def Let_def)

theorem strong_sources_qualified_witness:
  "\<exists>s1 s2 \<sigma>'.
     strong_sources demo_env [wiki_result, blog_result, slow_result] 6 demo_state
       = (Inr [s1, s2], \<sigma>')
     \<and> get s1 ''link'' = PStr wiki_link \<and> get s2 ''link'' = PStr slow_link
     \<and> (\<exists>evs. trace \<sigma>' = trace demo_state @ evs
           \<and> (\<forall>s \<in> set [s1, s2]. whitelisted_or_long s \<and> fetched_in evs s))"
proof -
  from demo_strong obtain s1 s2 \<sigma>' where
    h: "strong_sources demo_env [wiki_result, blog_result, slow_result] 6 demo_state
        = (Inr [s1, s2], \<sigma>')"
    and l: "get s1 ''link'' = PStr wiki_link" "get s2 ''link'' = PStr slow_link"
    by (elim exE conjE)
  from strong_sources_qualified [OF h] h l show ?thesis
    by (intro exI [of _ s1] exI [of _ s2] exI [of _ \<sigma>']) simp
qed

section \<open>The fallback of the orchestrator\<close>

lemma fallback_sources_spec:
  "\<exists>contents \<sigma>'. length contents = length rs \<and>
     fallback_sources E rs \<sigma> =
       (Inr (map2 (\<lambda>r c. source_dict (get_default r ''title'' (PStr ''Untitled''))
                            (get r ''link'') (PStr c)) rs contents), \<sigma>') \<and>
     trace \<sigma>' = trace \<sigma> @ map2 (\<lambda>r c. ExtractCall (get r ''link'') (Inr c)) rs contents"
proof (induction rs arbitrary: \<sigma>)
  case Nil
  show ?case by simp
next
  case (Cons r rs)
  obtain content \<sigma>1 where
    f: "fetch_text E (get r ''link'') fetch_text_max_chars \<sigma> = (Inr content, \<sigma>1)"
    and t1: "trace \<sigma>1 = trace \<sigma> @ [ExtractCall (get r ''link'') (Inr content)]"
    using fetch_text_returns [of E "get r ''link''" fetch_text_max_chars \<sigma>] by auto
  from Cons.IH [of \<sigma>1] obtain contents \<sigma>' where
    l: "length contents = length rs"
    and r: "fallback_sources E rs \<sigma>1 =
       (Inr (map2 (\<lambda>r c. source_dict (get_default r ''title'' (PStr ''Untitled''))
                            (get r ''link'') (PStr c)) rs contents), \<sigma>')"
    and t: "trace \<sigma>' = trace \<sigma>1 @ map2 (\<lambda>r c. ExtractCall (get r ''link'') (Inr c)) rs contents"
    by blast
  from f t1 l r t show ?case
    by (intro exI [of _ "content # contents"] exI [of _ \<sigma>']) simp
qed

lemmas eval_defs =
  strong_sources_def select_sources_def fetch_text_def fetch_text_try_def
  fetch_text_fallback_def fetch_error_def fetch_text_max_chars_def splitlines_def
  long_enough_def strip_def is_space_def py_take_def get_def get_default_def Let_def

text \<open>
  Claim C6 gives the fallback exactly \<open>min(k, len(candidates))\<close> sources. The request
  model accepts any integer \<open>k\<close>, and for a negative one the slice
  \<^verbatim>\<open>results[:k]\<close> drops candidates from the end: of three candidates, none of which
  passes the filter, \<open>k = -1\<close> leaves two sources.
\<close>

theorem fallback_negative_k:
  "fst (strong_sources demo_env [blog_result, numbered_result 1, numbered_result 2] 6 demo_state)
     = Inr []
   \<and> fst (strong_sources demo_env [blog_result, numbered_result 1, numbered_result 2] (- 1)
           demo_state) = Inr []
   \<and> (case fst (select_sources demo_env [blog_result, numbered_result 1, numbered_result 2] (- 1)
                  demo_state) of
        Inr sources \<Rightarrow>
          length sources = 2
          \<and> int (length sources)
              \<noteq> min (- 1) (int (length [blog_result, numbered_result 1, numbered_result 2]))
      | Inl e \<Rightarrow> False)"
  by (simp add: eval_defs whitelist_defs busy_defs demo_defs)


text \<open>
  Claim C6, amended. For every candidate list and every \<open>k \<ge> 0\<close>: when
  \<^verbatim>\<open>strong_sources\<close> comes back empty, the fallback produces exactly
  \<open>min(k, len(candidates))\<close> sources, one for each of the first candidates in their
  order, with the candidate's title and link, and with the content that one extractor
  call for that link returned; these calls are all that happens after the
  qualification.
\<close>

theorem fallback_count:
  assumes "strong_sources E results k \<sigma> = (Inr [], \<sigma>1)" and "0 \<le> k"
  shows "\<exists>contents \<sigma>'.
     select_sources E results k \<sigma> =
       (Inr (map2 (\<lambda>r c. source_dict (get_default r ''title'' (PStr ''Untitled''))
                            (get r ''link'') (PStr c)) (take (nat k) results) contents), \<sigma>') \<and>
     int (length contents) = min k (int (length results)) \<and>
     trace \<sigma>' = trace \<sigma>1
       @ map2 (\<lambda>r c. ExtractCall (get r ''link'') (Inr c)) (take (nat k) results) contents"
proof -
  from assms have s: "select_sources E results k \<sigma> = fallback_sources E (take (nat k) results) \<sigma>1"
    by (simp add: select_sources_def py_take_nonneg)
  from fallback_sources_spec [of "take (nat k) results" E \<sigma>1] obtain contents \<sigma>' where
    l: "length contents = length (take (nat k) results)"
    and r: "fallback_sources E (take (nat k) results) \<sigma>1 =
       (Inr (map2 (\<lambda>r c. source_dict (get_default r ''title'' (PStr ''Untitled''))
                            (get r ''link'') (PStr c)) (take (nat k) results) contents), \<sigma>')"
    and t: "trace \<sigma>' = trace \<sigma>1
       @ map2 (\<lambda>r c. ExtractCall (get r ''link'') (Inr c)) (take (nat k) results) contents"
    by blast
  from l assms(2) have "int (length contents) = min k (int (length results))"
    by (simp add: min_def) linarith
  with s r t show ?thesis
    by (intro exI [of _ contents] exI [of _ \<sigma>']) simp
qed

lemma demo_no_strong:
  "\<exists>\<sigma>1. strong_sources demo_env [blog_result, numbered_result 1, numbered_result 2] 2 demo_state
     = (Inr [], \<sigma>1)"
  by (simp add: eval_defs whitelist_defs busy_defs demo_defs)

theorem fallback_count_witness:
  "\<exists>\<sigma>1 contents \<sigma>'.
     strong_sources demo_env [blog_result, numbered_result 1, numbered_result 2] 2 demo_state
       = (Inr [], \<sigma>1)
     \<and> (0::int) \<le> 2
     \<and> select_sources demo_env [blog_result, numbered_result 1, numbered_result 2] 2 demo_state =
       (Inr (map2 (\<lambda>r c. source_dict (get_default r ''title'' (PStr ''Untitled''))
                            (get r ''link'') (PStr c))
               (take (nat 2) [blog_result, numbered_result 1, numbered_result 2]) contents), \<sigma>')
     \<and> int (length contents)
         = min 2 (int (length [blog_result, numbered_result 1, numbered_result 2]))
     \<and> trace \<sigma>' = trace \<sigma>1
       @ map2 (\<lambda>r c. ExtractCall (get r ''link'') (Inr c))
           (take (nat 2) [blog_result, numbered_result 1, numbered_result 2]) contents"
proof -
  from demo_no_strong obtain \<sigma>1 where
    h: "strong_sources demo_env [blog_result, numbered_result 1, numbered_result 2] 2 demo_state
        = (Inr [], \<sigma>1)"
    by blast
  have k: "(0::int) \<le> 2"
    by simp
  from fallback_count [OF h k] obtain contents \<sigma>' where
    "select_sources demo_env [blog_result, numbered_result 1, numbered_result 2] 2 demo_state =
       (Inr (map2 (\<lambda>r c. source_dict (get_default r ''title'' (PStr ''Untitled''))
                            (get r ''link'') (PStr c))
               (take (nat 2) [blog_result, numbered_result 1, numbered_result 2]) contents), \<sigma>')
     \<and> int (length contents)
         = min 2 (int (length [blog_result, numbered_result 1, numbered_result 2]))
     \<and> trace \<sigma>' = trace \<sigma>1
       @ map2 (\<lambda>r c. ExtractCall (get r ''link'') (Inr c))
           (take (nat 2) [blog_result, numbered_result 1, numbered_result 2]) contents"
    by blast
  with h k show ?thesis
    by blast
qed

section \<open>Whitelisted pages without text\<close>

lemma is_whitelisted_truthy: "is_whitelisted link \<Longrightarrow> truthy link"
  by (cases link) (auto simp: is_whitelisted_def WHITELIST_DOMAINS_def or_str_def py_in_def)

lemma strong_sources_loop_step:
  assumes "truthy (get r ''link'')"
    and "fetch_text E (get r ''link'') fetch_text_max_chars \<sigma> = (Inr content, \<sigma>1)"
  shows "strong_sources_loop E k (r # rs) acc \<sigma> =
      (if int (length
            (if is_whitelisted (get r ''link'') \<or> long_enough content
             then acc @ [source_dict (PStr (or_str (get r ''title'') ''Untitled''))
                          (get r ''link'') (PStr content)]
             else acc)) \<ge> k
       then (Inr (if is_whitelisted (get r ''link'') \<or> long_enough content
             then acc @ [source_dict (PStr (or_str (get r ''title'') ''Untitled''))
                          (get r ''link'') (PStr content)]
             else acc), \<sigma>1)
       else strong_sources_loop E k rs
             (if is_whitelisted (get r ''link'') \<or> long_enough content
              then acc @ [source_dict (PStr (or_str (get r ''title'') ''Untitled''))
                          (get r ''link'') (PStr content)]
              else acc) \<sigma>1)"
  using assms by (simp add: Let_def)

lemma strong_sources_loop_append:
  "strong_sources_loop E k pre acc0 \<sigma>0 = (Inr acc, \<sigma>) \<Longrightarrow> int (length acc) < k \<Longrightarrow>
   strong_sources_loop E k (pre @ rs) acc0 \<sigma>0 = strong_sources_loop E k rs acc \<sigma>"
proof (induction pre arbitrary: acc0 \<sigma>0)
  case Nil
  then show ?case by simp
next
  case (Cons p pre)
  show ?case
  proof (cases "truthy (get p ''link'')")
    case False
    with Cons.prems have "strong_sources_loop E k pre acc0 \<sigma>0 = (Inr acc, \<sigma>)"
      by (simp add: Let_def)
    from Cons.IH [OF this Cons.prems(2)] False show ?thesis
      by (simp add: Let_def)
  next
    case True
    obtain content \<sigma>1 where
      f: "fetch_text E (get p ''link'') fetch_text_max_chars \<sigma>0 = (Inr content, \<sigma>1)"
      using fetch_text_returns [of E "get p ''link''" fetch_text_max_chars \<sigma>0] by auto
    define acc' where
      "acc' = (if is_whitelisted (get p ''link'') \<or> long_enough content
               then acc0 @ [source_dict (PStr (or_str (get p ''title'') ''Untitled''))
                             (get p ''link'') (PStr content)]
               else acc0)"
    note step = strong_sources_loop_step [OF True f, of k _ acc0, folded acc'_def]
    show ?thesis
    proof (cases "int (length acc') \<ge> k")
      case ge: True
      with Cons.prems(1) have "acc = acc'"
        unfolding step by simp
      with ge Cons.prems(2) show ?thesis by simp
    next
      case lt: False
      with Cons.prems(1) have "strong_sources_loop E k pre acc' \<sigma>1 = (Inr acc, \<sigma>)"
        unfolding step by simp
      from Cons.IH [OF this Cons.prems(2)] lt show ?thesis
        unfolding append_Cons step by simp
    qed
  qed
qed

text \<open>
  Claim C10. A candidate whose link contains a whitelisted domain is accepted also
  when the extractor returned the empty string for it, which the fallback of
  \<^verbatim>\<open>fetch_text\<close> does for a page without text. This holds wherever the loop of
  \<^verbatim>\<open>strong_sources\<close> stands: whatever sources it has collected so far, whatever
  candidates follow and whatever \<open>k\<close> is, the loop returns the sources collected so
  far, then this source with its empty content, then what the later candidates add.
  So in every candidate list in which the loop gets to the candidate, because the
  candidates before it gave fewer than \<open>k\<close> sources or because it is the first,
  \<^verbatim>\<open>strong_sources\<close> returns a list that holds the source, and since that list is
  not empty it is the list that goes into the prompt.
\<close>

theorem strong_sources_accepts_empty_whitelisted:
  assumes w: "is_whitelisted (get r ''link'')"
    and f: "fst (fetch_text E (get r ''link'') fetch_text_max_chars \<sigma>) = Inr []"
  shows "\<exists>others \<sigma>'.
      strong_sources_loop E k (r # rest) acc \<sigma>
        = (Inr (acc @ source_dict (PStr (or_str (get r ''title'') ''Untitled''))
                        (get r ''link'') (PStr []) # others), \<sigma>')
      \<and> (\<forall>pre \<sigma>0.
            strong_sources E pre k \<sigma>0 = (Inr acc, \<sigma>) \<and> (int (length acc) < k \<or> pre = []) \<longrightarrow>
            strong_sources E (pre @ r # rest) k \<sigma>0
              = (Inr (acc @ source_dict (PStr (or_str (get r ''title'') ''Untitled''))
                              (get r ''link'') (PStr []) # others), \<sigma>')
            \<and> select_sources E (pre @ r # rest) k \<sigma>0
              = (Inr (acc @ source_dict (PStr (or_str (get r ''title'') ''Untitled''))
                              (get r ''link'') (PStr []) # others), \<sigma>'))"
proof -
  let ?link = "get r ''link''"
  define src where
    "src = source_dict (PStr (or_str (get r ''title'') ''Untitled'')) ?link (PStr [])"
  from fetch_text_returns [of E ?link fetch_text_max_chars \<sigma>] f
  obtain \<sigma>1 where f1: "fetch_text E ?link fetch_text_max_chars \<sigma> = (Inr [], \<sigma>1)"
    by auto
  have step: "strong_sources_loop E k (r # rest) acc \<sigma> =
      (if int (length (acc @ [src])) \<ge> k then (Inr (acc @ [src]), \<sigma>1)
       else strong_sources_loop E k rest (acc @ [src]) \<sigma>1)"
    using strong_sources_loop_step [OF is_whitelisted_truthy [OF w] f1, of k rest acc] w
    by (simp add: src_def)
  have "\<exists>others \<sigma>'. strong_sources_loop E k (r # rest) acc \<sigma> = (Inr (acc @ src # others), \<sigma>')"
  proof (cases "int (length (acc @ [src])) \<ge> k")
    case True
    with step show ?thesis by simp
  next
    case False
    obtain out \<sigma>' where l: "strong_sources_loop E k rest (acc @ [src]) \<sigma>1 = (Inr out, \<sigma>')"
      using strong_sources_loop_returns by blast
    from strong_sources_loop_inv [OF l] obtain new where "out = (acc @ [src]) @ new"
      by blast
    with l False step show ?thesis by simp
  qed
  then obtain others \<sigma>' where
    s: "strong_sources_loop E k (r # rest) acc \<sigma> = (Inr (acc @ src # others), \<sigma>')"
    by blast
  have "strong_sources E (pre @ r # rest) k \<sigma>0 = (Inr (acc @ src # others), \<sigma>')
        \<and> select_sources E (pre @ r # rest) k \<sigma>0 = (Inr (acc @ src # others), \<sigma>')"
    if p: "strong_sources E pre k \<sigma>0 = (Inr acc, \<sigma>) \<and> (int (length acc) < k \<or> pre = [])"
    for pre \<sigma>0
  proof -
    have "strong_sources_loop E k (pre @ r # rest) [] \<sigma>0
          = strong_sources_loop E k (r # rest) acc \<sigma>"
    proof (cases "pre = []")
      case True
      with p show ?thesis by (simp add: strong_sources_def)
    next
      case False
      with p show ?thesis
        using strong_sources_loop_append [of E k pre "[]" \<sigma>0 acc \<sigma> "r # rest"]
        by (simp add: strong_sources_def)
    qed
    with s have "strong_sources E (pre @ r # rest) k \<sigma>0 = (Inr (acc @ src # others), \<sigma>')"
      by (simp add: strong_sources_def)
    then show ?thesis
      by (simp add: select_sources_def)
  qed
  with s show ?thesis
    unfolding src_def by blast
qed


lemmas bare_defs = bare_env_def unesco_result_def unesco_link_def

lemma bare_first:
  "strong_sources bare_env [wiki_result] 6 demo_state
   = (Inr [source_dict (PStr ''Wonders'') (PStr wiki_link) (PStr [])],
      \<lparr>world = Suc (Suc 0), trace = [ExtractCall (PStr wiki_link) (Inr [])]\<rparr>)"
  by (simp add: eval_defs whitelist_defs bare_defs demo_defs)

lemma bare_second:
  "is_whitelisted (get unesco_result ''link'')
   \<and> fst (fetch_text bare_env (get unesco_result ''link'') fetch_text_max_chars
           \<lparr>world = Suc (Suc 0), trace = [ExtractCall (PStr wiki_link) (Inr [])]\<rparr>) = Inr []
   \<and> fst (fetch_text_fallback bare_env (get unesco_result ''link'') fetch_text_max_chars
           (Suc (Suc (Suc 0)))) = Inr []"
  by (simp add: fetch_text_cases fetch_text_try_def fetch_text_fallback_def
        fetch_text_max_chars_def splitlines_def whitelist_defs bare_defs demo_defs get_def)

theorem strong_sources_accepts_empty_whitelisted_witness:
  "is_whitelisted (get unesco_result ''link'')
   \<and> fst (fetch_text bare_env (get unesco_result ''link'') fetch_text_max_chars
           \<lparr>world = Suc (Suc 0), trace = [ExtractCall (PStr wiki_link) (Inr [])]\<rparr>) = Inr []
   \<and> fst (fetch_text_fallback bare_env (get unesco_result ''link'') fetch_text_max_chars
           (Suc (Suc (Suc 0)))) = Inr []
   \<and> strong_sources bare_env [wiki_result] 6 demo_state
       = (Inr [source_dict (PStr ''Wonders'') (PStr wiki_link) (PStr [])],
          \<lparr>world = Suc (Suc 0), trace = [ExtractCall (PStr wiki_link) (Inr [])]\<rparr>)
   \<and> int (length [source_dict (PStr ''Wonders'') (PStr wiki_link) (PStr [])]) < 6
   \<and> (\<exists>others \<sigma>'.
        strong_sources_loop bare_env 6 [unesco_result, blog_result]
            [source_dict (PStr ''Wonders'') (PStr wiki_link) (PStr [])]
            \<lparr>world = Suc (Suc 0), trace = [ExtractCall (PStr wiki_link) (Inr [])]\<rparr>
          = (Inr ([source_dict (PStr ''Wonders'') (PStr wiki_link) (PStr []),
                   source_dict (PStr ''World Heritage List'') (PStr unesco_link) (PStr [])]
                  @ others), \<sigma>')
        \<and> strong_sources bare_env [wiki_result, unesco_result, blog_result] 6 demo_state
          = (Inr ([source_dict (PStr ''Wonders'') (PStr wiki_link) (PStr []),
                   source_dict (PStr ''World Heritage List'') (PStr unesco_link) (PStr [])]
                  @ others), \<sigma>')
        \<and> select_sources bare_env [wiki_result, unesco_result, blog_result] 6 demo_state
          = (Inr ([source_dict (PStr ''Wonders'') (PStr wiki_link) (PStr []),
                   source_dict (PStr ''World Heritage List'') (PStr unesco_link) (PStr [])]
                  @ others), \<sigma>'))"
proof -
  let ?mid = "\<lparr>world = Suc (Suc 0), trace = [ExtractCall (PStr wiki_link) (Inr [])]\<rparr>"
  let ?w = "source_dict (PStr ''Wonders'') (PStr wiki_link) (PStr [])"
  have g: "get unesco_result ''link'' = PStr unesco_link"
    "or_str (get unesco_result ''title'') ''Untitled'' = ''World Heritage List''"
    by (simp_all add: unesco_result_def get_def or_str_def)
  from bare_second have a: "is_whitelisted (get unesco_result ''link'')"
    and b: "fst (fetch_text bare_env (get unesco_result ''link'') fetch_text_max_chars ?mid)
            = Inr []"
    by simp_all
  have p: "strong_sources bare_env [wiki_result] 6 demo_state = (Inr [?w], ?mid)
           \<and> (int (length [?w]) < 6 \<or> [wiki_result] = [])"
    using bare_first by simp
  from strong_sources_accepts_empty_whitelisted [OF a b, of 6 "[blog_result]" "[?w]"]
  obtain others \<sigma>' where
    l: "strong_sources_loop bare_env 6 [unesco_result, blog_result] [?w] ?mid
        = (Inr ([?w] @ source_dict (PStr (or_str (get unesco_result ''title'') ''Untitled''))
                         (get unesco_result ''link'') (PStr []) # others), \<sigma>')"
    and r: "\<forall>pre \<sigma>0.
        strong_sources bare_env pre 6 \<sigma>0 = (Inr [?w], ?mid) \<and> (int (length [?w]) < 6 \<or> pre = []) \<longrightarrow>
        strong_sources bare_env (pre @ [unesco_result, blog_result]) 6 \<sigma>0
          = (Inr ([?w] @ source_dict (PStr (or_str (get unesco_result ''title'') ''Untitled''))
                           (get unesco_result ''link'') (PStr []) # others), \<sigma>')
        \<and> select_sources bare_env (pre @ [unesco_result, blog_result]) 6 \<sigma>0
          = (Inr ([?w] @ source_dict (PStr (or_str (get unesco_result ''title'') ''Untitled''))
                           (get unesco_result ''link'') (PStr []) # others), \<sigma>')"
    by blast
  from r [rule_format, OF p] l bare_second bare_first show ?thesis
    unfolding g by (intro conjI exI [of _ others] exI [of _ \<sigma>']) simp_all
qed

section \<open>The prompt\<close>

subsection \<open>Lines, margins and whitespace\<close>

lemma split_nl_nonempty [simp]: "split_nl t \<noteq> []"
  by (induction t) (auto split: list.splits)






lemma is_blank_space: "is_blank c \<Longrightarrow> is_space c"
  by (auto simp: is_blank_def is_space_def)


lemma squash_Nil [simp]: "squash [] = []"
  by (simp add: squash_def)

lemma squash_Cons [simp]: "squash (c # s) = (if is_space c then squash s else c # squash s)"
  by (simp add: squash_def)

lemma is_space_nl [simp]: "is_space (CHR 0x0A)"
  by (simp add: is_space_def)

lemma squash_blank: "list_all is_blank l \<Longrightarrow> squash l = []"
  by (induction l) (auto simp: squash_def is_blank_space)








lemma squash_blank_to_empty [simp]: "squash (blank_to_empty l) = squash l"
  by (simp add: blank_to_empty_def squash_blank)













lemma cut_margin_Nil [simp]: "cut_margin m (blank_to_empty []) = []"
  by (simp add: cut_margin_def blank_to_empty_def)





lemma digit_char_mem: "d < 10 \<Longrightarrow> digit_char d \<in> set ''0123456789''"
  unfolding digit_char_def by (rule nth_mem) simp

lemma str_nat_digits: "set (str_nat n) \<subseteq> set ''0123456789''"
proof (induction n rule: str_nat.induct)
  case (1 n)
  show ?case
  proof (cases "n < 10")
    case True
    then show ?thesis
      using digit_char_mem [of n] by (subst str_nat.simps) simp
  next
    case False
    have "digit_char (n mod 10) \<in> set ''0123456789''"
      by (rule digit_char_mem) simp
    with False 1 show ?thesis
      by (subst str_nat.simps) simp
  qed
qed

lemma str_nat_no_space: "c \<in> set (str_nat n) \<Longrightarrow> \<not> is_space c \<and> c \<noteq> CHR 0x0A"
  using str_nat_digits [of n] by (auto simp: is_space_def)

lemma squash_str_nat [simp]: "squash (str_nat n) = str_nat n"
  using str_nat_no_space [of _ n] by (simp add: squash_def)











subsection \<open>The context blocks\<close>








section \<open>The answer to the client\<close>









section \<open>No search results\<close>

lemma google_search_once_empty:
  assumes "\<forall>w q n. fst (cse_list E w q n) = Inr None \<or> fst (cse_list E w q n) = Inr (Some [])"
  shows "\<exists>\<sigma>'. google_search_once E q n \<sigma> = (Inr [], \<sigma>')
          \<and> trace \<sigma>' = trace \<sigma> @ [SearchCall q (Inr [])]"
proof -
  obtain r w' where c: "cse_list E (world \<sigma>) q (min n 10) = (r, w')"
    by (cases "cse_list E (world \<sigma>) q (min n 10)")
  with assms [rule_format, of "world \<sigma>" q "min n 10"] have "r = Inr None \<or> r = Inr (Some [])"
    by simp
  with c show ?thesis
    by (auto simp: google_search_once_def Let_def)
qed

lemma search_variants_empty:
  assumes "\<forall>w q n. fst (cse_list E w q n) = Inr None \<or> fst (cse_list E w q n) = Inr (Some [])"
    and "0 < budget"
  shows "\<exists>\<sigma>' evs. search_variants E budget qs (seen, []) \<sigma> = (Inr (seen, []), \<sigma>')
          \<and> trace \<sigma>' = trace \<sigma> @ evs \<and> list_all is_SearchCall evs"
proof (induction qs arbitrary: \<sigma>)
  case Nil
  show ?case by simp
next
  case (Cons q qs)
  from google_search_once_empty [OF assms(1), of q 10 \<sigma>] obtain \<sigma>1 where
    g: "google_search_once E q 10 \<sigma> = (Inr [], \<sigma>1)"
    and t: "trace \<sigma>1 = trace \<sigma> @ [SearchCall q (Inr [])]"
    by blast
  from Cons.IH [of \<sigma>1] obtain \<sigma>' evs where
    "search_variants E budget qs (seen, []) \<sigma>1 = (Inr (seen, []), \<sigma>')"
    "trace \<sigma>' = trace \<sigma>1 @ evs" "list_all is_SearchCall evs"
    by blast
  with g t assms(2) show ?case
    by (intro exI [of _ \<sigma>'] exI [of _ "SearchCall q (Inr []) # evs"]) simp
qed

lemma search_no_results:
  assumes "\<forall>w q n. fst (cse_list E w q n) = Inr None \<or> fst (cse_list E w q n) = Inr (Some [])"
  shows "\<exists>\<sigma>' evs.
     agentic_search E query k \<sigma> = (Inl (HTTPException 400 no_results_detail), \<sigma>') \<and>
     search E \<lparr>req_query = query, req_k = k\<rparr> \<sigma>
       = (Inl (HTTPException 500 (http_exception_str E 400 no_results_detail)), \<sigma>') \<and>
     trace \<sigma>' = trace \<sigma> @ evs \<and> list_all is_SearchCall evs"
proof -
  have "0 < max 12 (max 10 (k * 2) * 2)"
    by simp
  from search_variants_empty [OF assms this, of "queries_of query" "{}" \<sigma>]
  obtain \<sigma>' evs where
    v: "search_variants E (max 12 (max 10 (k * 2) * 2)) (queries_of query) ({}, []) \<sigma>
        = (Inr ({}, []), \<sigma>')"
    and t: "trace \<sigma>' = trace \<sigma> @ evs" "list_all is_SearchCall evs"
    by blast
  from v have "smart_search E query (max 10 (k * 2)) \<sigma> = (Inr [], \<sigma>')"
    by (simp add: smart_search_def smart_search_items_def py_take_def)
  then have a: "agentic_search E query k \<sigma> = (Inl (HTTPException 400 no_results_detail), \<sigma>')"
    by (simp add: agentic_search_def)
  then have "search E \<lparr>req_query = query, req_k = k\<rparr> \<sigma>
       = (Inl (HTTPException 500 (http_exception_str E 400 no_results_detail)), \<sigma>')"
    by (simp add: search_def)
  with a t show ?thesis
    by blast
qed

text \<open>
  Claim C1 has the no-results condition reported as HTTP 400 without a call of the
  extractor or of the synthesizer. In the world where the query \<open>nothing\<close> finds
  nothing under any variant, \<^verbatim>\<open>agentic_search\<close> raises the \<^verbatim>\<open>HTTPException\<close> with
  status 400 and the trace holds the eight search calls only; the handler's
  \<^verbatim>\<open>except Exception\<close> catches that exception and raises one with status 500, whose
  detail is the printed form of the first.
\<close>

theorem search_no_results_status:
  "fst (agentic_search demo_env ''nothing'' 6 demo_state)
     = Inl (HTTPException 400 ''No search results. Check Google CSE settings.'')
   \<and> fst (search demo_env \<lparr>req_query = ''nothing'', req_k = 6\<rparr> demo_state)
     = Inl (HTTPException 500 ''400: No search results. Check Google CSE settings.'')
   \<and> trace (snd (search demo_env \<lparr>req_query = ''nothing'', req_k = 6\<rparr> demo_state))
     = map (\<lambda>q. SearchCall q (Inr [])) (queries_of ''nothing'')"
  by (simp add: search_def agentic_search_def smart_search_def smart_search_items_def
        queries_of_def AUTHORITATIVE_HINTS_def google_search_once_def no_results_detail_def
        py_take_def str_nat.simps digit_char_def demo_defs Let_def)

end
